theory Spec2Isabelle
  imports Complex_Main "HOL-Library.Char_ord" "HOL-Library.List_Lexorder"
begin

section \<open>Python values\<close>

text \<open>
  Python's \<open>int\<close> is \<open>int\<close>. Python's \<open>float\<close> is idealised as \<open>real\<close>: rounding
  of binary floating point is not modelled. \<open>int(x)\<close> on a float truncates towards zero.
  An exception is a value of \<open>exn\<close>; a call that may raise returns \<open>exn + 'a\<close>.
\<close>

datatype exn = ZeroDivisionError | ValueError | IndexError | KeyError | OSError | cv2_error

definition py_int :: "real \<Rightarrow> int" where
  "py_int x = (if x < 0 then \<lceil>x\<rceil> else \<lfloor>x\<rfloor>)"

text \<open>\<open>range(lo, hi)\<close> and \<open>enumerate(xs)\<close>.\<close>

definition py_range :: "int \<Rightarrow> int \<Rightarrow> int list" where
  "py_range lo hi = [lo..hi - 1]"

definition enumerate_from0 :: "'a list \<Rightarrow> (nat \<times> 'a) list" where
  "enumerate_from0 xs = zip [0..<length xs] xs"

text \<open>\<open>xs[i]\<close>: a negative index counts from the end, an index out of range raises.\<close>

definition py_index :: "'a list \<Rightarrow> int \<Rightarrow> exn + 'a" where
  "py_index xs i =
     (let j = (if i < 0 then i + int (length xs) else i)
      in if 0 \<le> j \<and> j < int (length xs) then Inr (xs ! nat j) else Inl IndexError)"

text \<open>
  The bound of a slice \<open>xs[start:stop]\<close> on a dimension of length \<open>len\<close>, as Python
  normalises it.
\<close>

definition slice_index :: "nat \<Rightarrow> int \<Rightarrow> nat" where
  "slice_index len i = (if i < 0 then nat (max (int len + i) 0) else min (nat i) len)"

text \<open>
  A \<open>for\<close> loop whose body may raise: the state is threaded through the items in order
  and the first exception ends the loop. A \<open>continue\<close> is a body that returns the state
  as it is.
\<close>

primrec for_each :: "'i list \<Rightarrow> ('s \<Rightarrow> 'i \<Rightarrow> exn + 's) \<Rightarrow> 's \<Rightarrow> exn + 's" where
  "for_each [] body s = Inr s"
| "for_each (i # rest) body s =
     (case body s i of Inl e \<Rightarrow> Inl e | Inr s' \<Rightarrow> for_each rest body s')"

text \<open>\<open>sep.join(parts)\<close>.\<close>

fun join_with :: "string \<Rightarrow> string list \<Rightarrow> string" where
  "join_with sep [] = []"
| "join_with sep [x] = x"
| "join_with sep (x # y # rest) = x @ sep @ join_with sep (y # rest)"

section \<open>Arrays\<close>

text \<open>
  A numpy array is its shape and its elements in row-major order. An image has shape
  \<open>(height, width)\<close> or \<open>(height, width, channels)\<close>.
\<close>

record ndarray =
  shape :: "nat list"
  data :: "real list"

text \<open>\<^verbatim>\<open>height, width = img.shape[:2]\<close>: unpacking fewer than two values raises.\<close>

definition shape2 :: "ndarray \<Rightarrow> exn + (nat \<times> nat)" where
  "shape2 a = (case shape a of h # w # _ \<Rightarrow> Inr (h, w) | _ \<Rightarrow> Inl ValueError)"

definition row_len :: "ndarray \<Rightarrow> nat" where
  "row_len a = prod_list (tl (shape a))"

definition row :: "ndarray \<Rightarrow> nat \<Rightarrow> real list" where
  "row a y = take (row_len a) (drop (y * row_len a) (data a))"

definition pixel_len :: "ndarray \<Rightarrow> nat" where
  "pixel_len a = prod_list (drop 2 (shape a))"

text \<open>
  \<open>a.astype(np.uint8)\<close>: the value is truncated and kept modulo 256.
  \<open>a.astype(np.float32)\<close> keeps the values.
\<close>

definition astype_uint8 :: "ndarray \<Rightarrow> ndarray" where
  "astype_uint8 a = a\<lparr>data := map (\<lambda>v. real_of_int (py_int v mod 256)) (data a)\<rparr>"

definition astype_float32 :: "ndarray \<Rightarrow> ndarray" where
  "astype_float32 a = a"

text \<open>\<open>np.hstack([img, img, img])\<close>: three copies side by side.\<close>

definition hstack3 :: "ndarray \<Rightarrow> ndarray" where
  "hstack3 a =
     (case shape a of
        h # w # rest \<Rightarrow>
          \<lparr>shape = h # (3 * w) # rest,
           data = concat (map (\<lambda>y. row a y @ row a y @ row a y) [0..<h])\<rparr>
      | _ \<Rightarrow> a)"

text \<open>\<open>a[:, start:stop]\<close>: the columns of a slice.\<close>

definition slice_cols :: "ndarray \<Rightarrow> int \<Rightarrow> int \<Rightarrow> ndarray" where
  "slice_cols a start stop =
     (case shape a of
        h # w # rest \<Rightarrow>
          (let lo = slice_index w start;
               hi = slice_index w stop;
               n = hi - lo;
               c = prod_list rest
           in \<lparr>shape = h # n # rest,
               data = concat (map (\<lambda>y. take (n * c) (drop (lo * c) (row a y))) [0..<h])\<rparr>)
      | _ \<Rightarrow> a)"

text \<open>
  \<open>cv2.cvtColor\<close> with \<open>COLOR_GRAY2BGR\<close> (each value three times), \<open>COLOR_BGRA2BGR\<close>
  (the fourth channel dropped) and \<open>COLOR_RGB2BGR\<close> (the channels reversed), and
  \<open>cv2.flip(a, 1)\<close> (each row reversed).
\<close>

definition cvtColor_GRAY2BGR :: "ndarray \<Rightarrow> ndarray" where
  "cvtColor_GRAY2BGR a =
     \<lparr>shape = take 2 (shape a) @ [3], data = concat (map (\<lambda>g. [g, g, g]) (data a))\<rparr>"

definition cvtColor_BGRA2BGR :: "ndarray \<Rightarrow> ndarray" where
  "cvtColor_BGRA2BGR a =
     \<lparr>shape = take 2 (shape a) @ [3],
      data = concat (map (\<lambda>p. take 3 (drop (4 * p) (data a)))
                         [0..<prod_list (take 2 (shape a))])\<rparr>"

definition cvtColor_RGB2BGR :: "ndarray \<Rightarrow> ndarray" where
  "cvtColor_RGB2BGR a =
     \<lparr>shape = shape a,
      data = concat (map (\<lambda>p. rev (take 3 (drop (3 * p) (data a))))
                         [0..<prod_list (take 2 (shape a))])\<rparr>"

definition flip_horizontal :: "ndarray \<Rightarrow> ndarray" where
  "flip_horizontal a =
     (case shape a of
        h # w # rest \<Rightarrow>
          \<lparr>shape = shape a,
           data = concat (map (\<lambda>y. concat (rev (map (\<lambda>x. take (pixel_len a)
                                                      (drop (x * pixel_len a) (row a y)))
                                                 [0..<w])))
                              [0..<h])\<rparr>
      | _ \<Rightarrow> a)"

subsection \<open>Broadcasting\<close>

text \<open>
  numpy's rule for an elementwise operation: the shapes are aligned at their last
  dimension; two dimensions are compatible when they are equal or one of them is 1;
  otherwise the operation raises ValueError.
\<close>

fun broadcast_rev :: "nat list \<Rightarrow> nat list \<Rightarrow> nat list option" where
  "broadcast_rev [] ys = Some ys"
| "broadcast_rev (x # xs) [] = Some (x # xs)"
| "broadcast_rev (x # xs) (y # ys) =
     (if x = y \<or> y = 1 then map_option ((#) x) (broadcast_rev xs ys)
      else if x = 1 then map_option ((#) y) (broadcast_rev xs ys)
      else None)"

definition broadcast_shapes :: "nat list \<Rightarrow> nat list \<Rightarrow> nat list option" where
  "broadcast_shapes s t = map_option rev (broadcast_rev (rev s) (rev t))"

fun unravel :: "nat list \<Rightarrow> nat \<Rightarrow> nat list" where
  "unravel [] k = []"
| "unravel (d # ds) k = (k div prod_list ds) # unravel ds (k mod prod_list ds)"

fun ravel :: "nat list \<Rightarrow> nat list \<Rightarrow> nat" where
  "ravel (d # ds) (i # rest) = i * prod_list ds + ravel ds rest"
| "ravel _ _ = 0"

definition bindex :: "nat list \<Rightarrow> nat list \<Rightarrow> nat list" where
  "bindex s idx =
     map (\<lambda>(d, i). if d = 1 then 0 else i) (zip s (drop (length idx - length s) idx))"

definition item :: "ndarray \<Rightarrow> nat list \<Rightarrow> real" where
  "item a idx =
     (let k = ravel (shape a) idx in if k < length (data a) then data a ! k else 0)"

definition elementwise :: "(real \<Rightarrow> real \<Rightarrow> real) \<Rightarrow> ndarray \<Rightarrow> ndarray \<Rightarrow> exn + ndarray" where
  "elementwise f a b =
     (case broadcast_shapes (shape a) (shape b) of
        None \<Rightarrow> Inl ValueError
      | Some s \<Rightarrow>
          Inr \<lparr>shape = s,
               data = map (\<lambda>k. f (item a (bindex (shape a) (unravel s k)))
                                  (item b (bindex (shape b) (unravel s k))))
                          [0..<prod_list s]\<rparr>)"

definition scalar_op :: "(real \<Rightarrow> real) \<Rightarrow> ndarray \<Rightarrow> ndarray" where
  "scalar_op f a = a\<lparr>data := map f (data a)\<rparr>"

subsection \<open>OpenCV\<close>

text \<open>
  The pixel values OpenCV computes (interpolation, blurring, resampling) are parameters
  of the model. What is fixed here is the library's contract on shapes: the result of
  \<open>warpAffine\<close> and of \<open>resize\<close> has the size \<open>dsize = (width, height)\<close> and the
  channels of the source, \<open>GaussianBlur\<close> keeps the shape, and \<open>remap\<close> has the size of
  the maps and the channels of the source. None of them writes to its source.
\<close>

record cv2 =
  warpAffine_px :: "ndarray \<Rightarrow> ndarray \<Rightarrow> nat \<times> nat \<Rightarrow> real list"
  GaussianBlur_px :: "ndarray \<Rightarrow> nat \<times> nat \<Rightarrow> real \<Rightarrow> real list"
  remap_px :: "ndarray \<Rightarrow> ndarray \<Rightarrow> ndarray \<Rightarrow> real list"
  resize_px :: "ndarray \<Rightarrow> nat \<times> nat \<Rightarrow> real list"

definition warpAffine :: "cv2 \<Rightarrow> ndarray \<Rightarrow> ndarray \<Rightarrow> nat \<times> nat \<Rightarrow> ndarray" where
  "warpAffine cv src M dsize =
     \<lparr>shape = [snd dsize, fst dsize] @ drop 2 (shape src),
      data = warpAffine_px cv src M dsize\<rparr>"

definition resize :: "cv2 \<Rightarrow> ndarray \<Rightarrow> nat \<times> nat \<Rightarrow> ndarray" where
  "resize cv src dsize =
     \<lparr>shape = [snd dsize, fst dsize] @ drop 2 (shape src),
      data = resize_px cv src dsize\<rparr>"

definition GaussianBlur :: "cv2 \<Rightarrow> ndarray \<Rightarrow> nat \<times> nat \<Rightarrow> real \<Rightarrow> ndarray" where
  "GaussianBlur cv src ksize sigma =
     \<lparr>shape = shape src, data = GaussianBlur_px cv src ksize sigma\<rparr>"

definition remap :: "cv2 \<Rightarrow> ndarray \<Rightarrow> ndarray \<Rightarrow> ndarray \<Rightarrow> ndarray" where
  "remap cv src map_x map_y =
     \<lparr>shape = take 2 (shape map_x) @ drop 2 (shape src),
      data = remap_px cv src map_x map_y\<rparr>"

text \<open>
  \<open>cv2.getRotationMatrix2D(center, angle, scale)\<close>: the 2x3 matrix of a rotation by
  \<open>angle\<close> degrees about \<open>center\<close> with an isotropic scale. \<open>M[0, 2] += v\<close> and
  \<open>M[1, 2] += v\<close> add to its elements 2 and 5.
\<close>

definition getRotationMatrix2D :: "nat \<times> nat \<Rightarrow> real \<Rightarrow> real \<Rightarrow> ndarray" where
  "getRotationMatrix2D center angle scale =
     (let a = scale * cos (angle * pi / 180);
          b = scale * sin (angle * pi / 180);
          cx = real (fst center);
          cy = real (snd center)
      in \<lparr>shape = [2, 3],
          data = [a, b, (1 - a) * cx - b * cy, - b, a, b * cx + (1 - a) * cy]\<rparr>)"

definition iadd_at :: "ndarray \<Rightarrow> nat \<Rightarrow> real \<Rightarrow> ndarray" where
  "iadd_at M k v = M\<lparr>data := (data M)[k := data M ! k + v]\<rparr>"

section \<open>The store of image buffers\<close>

text \<open>
  Image buffers live in a store: a list of arrays, an address is an index. Creating an
  array appends a cell; an operation that writes in place (\<open>result += zoomed\<close>) updates
  a cell. The matrix \<open>M\<close> and the mask of the tilt-shift effect are created inside the
  call that updates them and never leave it; they are local values.
\<close>

definition alloc :: "ndarray list \<Rightarrow> ndarray \<Rightarrow> ndarray list \<times> nat" where
  "alloc h a = (h @ [a], length h)"

section \<open>Effect library\<close>

text \<open>Every effect starts with \<^verbatim>\<open>progress = frame_idx / max(total_frames - 1, 1)\<close>.\<close>

definition progress_of :: "int \<Rightarrow> int \<Rightarrow> real" where
  "progress_of frame_idx total_frames =
     real_of_int frame_idx / real_of_int (max (total_frames - 1) 1)"

definition apply_subtle_motion ::
  "cv2 \<Rightarrow> ndarray list \<Rightarrow> nat \<Rightarrow> int \<Rightarrow> int \<Rightarrow> exn + (ndarray list \<times> nat)" where
  "apply_subtle_motion cv h img frame_idx total_frames =
     (case shape2 (h ! img) of
        Inl e \<Rightarrow> Inl e
      | Inr (height, width) \<Rightarrow>
          (let progress = progress_of frame_idx total_frames;
               zoom = 1.0 + 0.15 * progress;
               pan_x = py_int (20 * sin (progress * pi * 2));
               pan_y = py_int (15 * cos (progress * pi * 2));
               center = (width div 2, height div 2);
               M0 = getRotationMatrix2D center 0 zoom;
               M1 = iadd_at M0 2 (real_of_int pan_x);
               M = iadd_at M1 5 (real_of_int pan_y)
           in Inr (alloc h (warpAffine cv (h ! img) M (width, height)))))"

definition apply_ken_burns_effect ::
  "cv2 \<Rightarrow> ndarray list \<Rightarrow> nat \<Rightarrow> int \<Rightarrow> int \<Rightarrow> exn + (ndarray list \<times> nat)" where
  "apply_ken_burns_effect cv h img frame_idx total_frames =
     (case shape2 (h ! img) of
        Inl e \<Rightarrow> Inl e
      | Inr (height, width) \<Rightarrow>
          (let progress = progress_of frame_idx total_frames;
               zoom = 1.0 + 0.3 * (progress ^ 2);
               pan_x = py_int (30 * sin (progress * pi));
               pan_y = py_int (25 * (progress - 0.5));
               center = (width div 2, height div 2);
               M0 = getRotationMatrix2D center 0 zoom;
               M1 = iadd_at M0 2 (real_of_int pan_x);
               M = iadd_at M1 5 (real_of_int pan_y)
           in Inr (alloc h (warpAffine cv (h ! img) M (width, height)))))"

text \<open>
  The slice \<open>tiled[:, start_x:start_x + width]\<close> is a view of \<open>tiled\<close>; it is given a
  cell of its own, since nothing writes to either afterwards.
\<close>

definition apply_360_pan_effect ::
  "cv2 \<Rightarrow> ndarray list \<Rightarrow> nat \<Rightarrow> int \<Rightarrow> int \<Rightarrow> exn + (ndarray list \<times> nat)" where
  "apply_360_pan_effect cv h img frame_idx total_frames =
     (case shape2 (h ! img) of
        Inl e \<Rightarrow> Inl e
      | Inr (height, width) \<Rightarrow>
          (let progress = progress_of frame_idx total_frames;
               (h1, tiled) = alloc h (hstack3 (h ! img));
               tiled_width = shape (h1 ! tiled) ! 1;
               start_x = py_int (real_of_int (int tiled_width - int width) * progress)
           in Inr (alloc h1 (slice_cols (h1 ! tiled) start_x (start_x + int width)))))"

text \<open>
  The mask of the tilt-shift effect: \<open>np.zeros((height, 1))\<close>, a slice set to 1.0, two
  loops that divide by \<open>int(height * 0.15)\<close> (a Python \<open>int\<close>, so a zero divisor raises
  ZeroDivisionError), then \<open>np.tile(mask, (1, width))\<close>.
\<close>

definition np_zeros :: "nat list \<Rightarrow> ndarray" where
  "np_zeros s = \<lparr>shape = s, data = replicate (prod_list s) 0\<rparr>"

definition slice_assign :: "ndarray \<Rightarrow> int \<Rightarrow> int \<Rightarrow> real \<Rightarrow> ndarray" where
  "slice_assign mask_arr start stop v =
     (let lo = slice_index (length (data mask_arr)) start;
          hi = slice_index (length (data mask_arr)) stop
      in mask_arr\<lparr>data := map (\<lambda>(i, old). if lo \<le> i \<and> i < hi then v else old)
                            (zip [0..<length (data mask_arr)] (data mask_arr))\<rparr>)"

definition mask_rise :: "nat \<Rightarrow> int \<Rightarrow> ndarray \<Rightarrow> int \<Rightarrow> exn + ndarray" where
  "mask_rise height focus_band mask_arr i =
     (if py_int (real height * 0.15) = 0 then Inl ZeroDivisionError
      else Inr (mask_arr\<lparr>data := (data mask_arr)
                  [nat i := max 0 (real_of_int (i - (focus_band - py_int (real height * 0.15)))
                                   / real_of_int (py_int (real height * 0.15)))]\<rparr>))"

definition mask_fall :: "nat \<Rightarrow> int \<Rightarrow> ndarray \<Rightarrow> int \<Rightarrow> exn + ndarray" where
  "mask_fall height focus_band mask_arr i =
     (if py_int (real height * 0.15) = 0 then Inl ZeroDivisionError
      else Inr (mask_arr\<lparr>data := (data mask_arr)
                  [nat i := max 0 (real_of_int (focus_band + py_int (real height * 0.35) - i)
                                   / real_of_int (py_int (real height * 0.15)))]\<rparr>))"

definition tile_cols :: "ndarray \<Rightarrow> nat \<Rightarrow> ndarray" where
  "tile_cols mask_arr width =
     \<lparr>shape = [length (data mask_arr), width],
      data = concat (map (replicate width) (data mask_arr))\<rparr>"

definition apply_tilt_shift_effect ::
  "cv2 \<Rightarrow> ndarray list \<Rightarrow> nat \<Rightarrow> int \<Rightarrow> int \<Rightarrow> exn + (ndarray list \<times> nat)" where
  "apply_tilt_shift_effect cv h img frame_idx total_frames =
     (case shape2 (h ! img) of
        Inl e \<Rightarrow> Inl e
      | Inr (height, width) \<Rightarrow>
          (let progress = progress_of frame_idx total_frames;
               zoom = 1.0 + 0.2 * progress;
               center = (width div 2, height div 2);
               M = getRotationMatrix2D center 0 zoom;
               (h1, transformed) = alloc h (warpAffine cv (h ! img) M (width, height));
               (h2, blurred) = alloc h1 (GaussianBlur cv (h1 ! transformed) (21, 21) 0);
               focus_band = py_int (real height * 0.4);
               mask0 = np_zeros [height, 1];
               mask1 = slice_assign mask0 focus_band
                         (focus_band + py_int (real height * 0.2)) 1.0
           in case for_each (py_range 0 focus_band) (mask_rise height focus_band) mask1 of
                Inl e \<Rightarrow> Inl e
              | Inr mask2 \<Rightarrow>
                  (case for_each (py_range (focus_band + py_int (real height * 0.2)) (int height))
                          (mask_fall height focus_band) mask2 of
                     Inl e \<Rightarrow> Inl e
                   | Inr mask3 \<Rightarrow>
                       (let mask_arr = tile_cols mask3 width
                        in case elementwise (*) (h2 ! transformed) mask_arr of
                             Inl e \<Rightarrow> Inl e
                           | Inr sharp \<Rightarrow>
                               (case elementwise (*) (h2 ! blurred)
                                       (scalar_op (\<lambda>v. 1 - v) mask_arr) of
                                  Inl e \<Rightarrow> Inl e
                                | Inr soft \<Rightarrow>
                                    (case elementwise (+) sharp soft of
                                       Inl e \<Rightarrow> Inl e
                                     | Inr blended \<Rightarrow>
                                         Inr (alloc h2 (astype_uint8 blended))))))))"

definition apply_zoom_in_effect ::
  "cv2 \<Rightarrow> ndarray list \<Rightarrow> nat \<Rightarrow> int \<Rightarrow> int \<Rightarrow> exn + (ndarray list \<times> nat)" where
  "apply_zoom_in_effect cv h img frame_idx total_frames =
     (case shape2 (h ! img) of
        Inl e \<Rightarrow> Inl e
      | Inr (height, width) \<Rightarrow>
          (let progress = progress_of frame_idx total_frames;
               zoom = 1.0 + 1.0 * progress;
               center = (width div 2, height div 2);
               M = getRotationMatrix2D center 0 zoom
           in Inr (alloc h (warpAffine cv (h ! img) M (width, height)))))"

definition apply_zoom_out_effect ::
  "cv2 \<Rightarrow> ndarray list \<Rightarrow> nat \<Rightarrow> int \<Rightarrow> int \<Rightarrow> exn + (ndarray list \<times> nat)" where
  "apply_zoom_out_effect cv h img frame_idx total_frames =
     (case shape2 (h ! img) of
        Inl e \<Rightarrow> Inl e
      | Inr (height, width) \<Rightarrow>
          (let progress = progress_of frame_idx total_frames;
               zoom = 1.2 - 0.2 * progress;
               center = (width div 2, height div 2);
               M = getRotationMatrix2D center 0 zoom
           in Inr (alloc h (warpAffine cv (h ! img) M (width, height)))))"

definition apply_dolly_zoom_effect ::
  "cv2 \<Rightarrow> ndarray list \<Rightarrow> nat \<Rightarrow> int \<Rightarrow> int \<Rightarrow> exn + (ndarray list \<times> nat)" where
  "apply_dolly_zoom_effect cv h img frame_idx total_frames =
     (case shape2 (h ! img) of
        Inl e \<Rightarrow> Inl e
      | Inr (height, width) \<Rightarrow>
          (let progress = progress_of frame_idx total_frames;
               zoom = 1.0 + 0.5 * sin (progress * pi);
               center = (width div 2, height div 2);
               M = getRotationMatrix2D center 0 zoom;
               angle = 5 * sin (progress * pi * 2);
               rotation_M = getRotationMatrix2D center angle 1.0;
               (h1, rotated) = alloc h (warpAffine cv (h ! img) rotation_M (width, height))
           in Inr (alloc h1 (warpAffine cv (h1 ! rotated) M (width, height)))))"

text \<open>
  The maps of the wave effect, from \<open>np.meshgrid(np.arange(width), np.arange(height))\<close>:
  both have shape \<open>(height, width)\<close>; \<open>np.clip(a, lo, hi)\<close> is \<open>min(max(a, lo), hi)\<close>.
\<close>

definition np_clip :: "real \<Rightarrow> real \<Rightarrow> real \<Rightarrow> real" where
  "np_clip v lo hi = min (max v lo) hi"

definition wave_map :: "nat \<Rightarrow> nat \<Rightarrow> (nat \<Rightarrow> nat \<Rightarrow> real) \<Rightarrow> ndarray" where
  "wave_map height width f =
     \<lparr>shape = [height, width],
      data = concat (map (\<lambda>y. map (\<lambda>x. f x y) [0..<width]) [0..<height])\<rparr>"

definition apply_wave_effect ::
  "cv2 \<Rightarrow> ndarray list \<Rightarrow> nat \<Rightarrow> int \<Rightarrow> int \<Rightarrow> exn + (ndarray list \<times> nat)" where
  "apply_wave_effect cv h img frame_idx total_frames =
     (case shape2 (h ! img) of
        Inl e \<Rightarrow> Inl e
      | Inr (height, width) \<Rightarrow>
          (let progress = progress_of frame_idx total_frames;
               wave_freq = 0.01;
               wave_amp = 20 * progress;
               x_wave = wave_map height width
                          (\<lambda>x y. np_clip (real x + wave_amp * sin (real y * wave_freq + progress * pi * 2))
                                         0 (real_of_int (int width - 1)));
               y_wave = wave_map height width
                          (\<lambda>x y. np_clip (real y + wave_amp * cos (real x * wave_freq + progress * pi * 2))
                                         0 (real_of_int (int height - 1)))
           in Inr (alloc h (remap cv (h ! img) (astype_float32 x_wave) (astype_float32 y_wave)))))"

text \<open>
  \<open>result += zoomed\<close> writes into the buffer \<open>result\<close>: the sum must have the shape
  of \<open>result\<close>.
\<close>

definition iadd :: "ndarray list \<Rightarrow> nat \<Rightarrow> nat \<Rightarrow> exn + ndarray list" where
  "iadd h result zoomed =
     (case elementwise (+) (h ! result) (h ! zoomed) of
        Inl e \<Rightarrow> Inl e
      | Inr summed \<Rightarrow>
          if shape summed = shape (h ! result) then Inr (h[result := summed])
          else Inl ValueError)"

definition radial_blur_step ::
  "cv2 \<Rightarrow> nat \<Rightarrow> nat \<times> nat \<Rightarrow> nat \<Rightarrow> nat \<Rightarrow> nat \<Rightarrow> ndarray list \<Rightarrow> int \<Rightarrow> exn + ndarray list" where
  "radial_blur_step cv img center width height result h i =
     (let scale = 1.0 + 0.05 * real_of_int i;
          M = getRotationMatrix2D center 0 scale;
          (h1, as_float) = alloc h (astype_float32 (h ! img));
          (h2, zoomed) = alloc h1 (warpAffine cv (h1 ! as_float) M (width, height))
      in iadd h2 result zoomed)"

definition apply_radial_blur_effect ::
  "cv2 \<Rightarrow> ndarray list \<Rightarrow> nat \<Rightarrow> int \<Rightarrow> int \<Rightarrow> exn + (ndarray list \<times> nat)" where
  "apply_radial_blur_effect cv h img frame_idx total_frames =
     (case shape2 (h ! img) of
        Inl e \<Rightarrow> Inl e
      | Inr (height, width) \<Rightarrow>
          (let progress = progress_of frame_idx total_frames;
               center = (width div 2, height div 2);
               (h1, result) = alloc h (astype_float32 (h ! img));
               blur_strength = py_int (1 + 4 * progress)
           in case for_each (py_range 0 blur_strength)
                     (radial_blur_step cv img center width height result) h1 of
                Inl e \<Rightarrow> Inl e
              | Inr h2 \<Rightarrow>
                  Inr (alloc h2 (astype_uint8
                         (scalar_op (\<lambda>v. v / real_of_int (blur_strength + 1)) (h2 ! result))))))"

definition apply_rotation_effect ::
  "cv2 \<Rightarrow> ndarray list \<Rightarrow> nat \<Rightarrow> int \<Rightarrow> int \<Rightarrow> exn + (ndarray list \<times> nat)" where
  "apply_rotation_effect cv h img frame_idx total_frames =
     (case shape2 (h ! img) of
        Inl e \<Rightarrow> Inl e
      | Inr (height, width) \<Rightarrow>
          (let progress = progress_of frame_idx total_frames;
               angle = 360 * progress;
               center = (width div 2, height div 2);
               M = getRotationMatrix2D center angle 1.0
           in Inr (alloc h (warpAffine cv (h ! img) M (width, height)))))"

definition apply_flip_effect ::
  "cv2 \<Rightarrow> ndarray list \<Rightarrow> nat \<Rightarrow> int \<Rightarrow> int \<Rightarrow> exn + (ndarray list \<times> nat)" where
  "apply_flip_effect cv h img frame_idx total_frames =
     (case shape2 (h ! img) of
        Inl e \<Rightarrow> Inl e
      | Inr (height, width) \<Rightarrow>
          (let progress = progress_of frame_idx total_frames;
               flips = py_int (progress * 3);
               (h1, copied) = alloc h (h ! img);
               (h2, result) = (if flips mod 2 = 1 then alloc h1 (flip_horizontal (h1 ! copied))
                               else (h1, copied));
               zoom = 1.0 + 0.2 * sin (progress * pi * 2);
               center = (width div 2, height div 2);
               M = getRotationMatrix2D center 0 zoom
           in Inr (alloc h2 (warpAffine cv (h2 ! result) M (width, height)))))"

section \<open>Quality presets\<close>

text \<open>The dict \<open>QUALITY_PRESETS\<close>: name to (width, height, bitrate factor).\<close>

definition QUALITY_PRESETS :: "(string \<times> (nat \<times> nat \<times> real)) list" where
  "QUALITY_PRESETS =
     [(''4K'', (3840, 2160, 1.5)),
      (''1080p'', (1920, 1080, 1.0)),
      (''720p'', (1280, 720, 0.7)),
      (''480p'', (854, 480, 0.5)),
      (''360p'', (640, 360, 0.3))]"

text \<open>
  Lines 304-307 of \<open>create_video_per_image_with_motion\<close>:
  \<^verbatim>\<open>if quality not in QUALITY_PRESETS: quality = '1080p'\<close>, then
  \<^verbatim>\<open>width, height, _ = QUALITY_PRESETS[quality]\<close>, where a missing key would raise.
\<close>

definition effective_quality :: "string \<Rightarrow> string" where
  "effective_quality q = (if map_of QUALITY_PRESETS q = None then ''1080p'' else q)"

definition target_size :: "string \<Rightarrow> exn + (nat \<times> nat)" where
  "target_size q =
     (case map_of QUALITY_PRESETS (effective_quality q) of
        None \<Rightarrow> Inl KeyError
      | Some (width, height, _) \<Rightarrow> Inr (width, height))"

section \<open>Motion plan\<close>

text \<open>The dict \<open>motion_functions\<close>; the key \<open>'none'\<close> maps to Python's \<open>None\<close>.\<close>

definition motion_functions ::
  "(string \<times> (cv2 \<Rightarrow> ndarray list \<Rightarrow> nat \<Rightarrow> int \<Rightarrow> int \<Rightarrow> exn + (ndarray list \<times> nat)) option) list" where
  "motion_functions =
     [(''subtle'', Some apply_subtle_motion),
      (''ken-burns'', Some apply_ken_burns_effect),
      (''360-pan'', Some apply_360_pan_effect),
      (''tilt-shift'', Some apply_tilt_shift_effect),
      (''zoom-in'', Some apply_zoom_in_effect),
      (''zoom-out'', Some apply_zoom_out_effect),
      (''dolly-zoom'', Some apply_dolly_zoom_effect),
      (''wave'', Some apply_wave_effect),
      (''radial-blur'', Some apply_radial_blur_effect),
      (''rotation'', Some apply_rotation_effect),
      (''flip'', Some apply_flip_effect),
      (''none'', None)]"

text \<open>\<^verbatim>\<open>mt in motion_functions\<close>: membership among the keys of the dict.\<close>

definition is_motion_type :: "string \<Rightarrow> bool" where
  "is_motion_type mt = (map_of motion_functions mt \<noteq> None)"

text \<open>
  The argument \<open>motion_types\<close> is a single string or a sequence of strings.
  Lines 317-342: a string is wrapped in a list, a sequence is cut to its first three
  entries; then the entries that are not keys of \<open>motion_functions\<close> are removed, and
  an empty result is replaced with \<open>['none']\<close>.
\<close>

datatype motion_arg = Str string | Seq "string list"

definition motion_plan :: "motion_arg \<Rightarrow> string list" where
  "motion_plan arg =
     (let listed = (case arg of Str s \<Rightarrow> [s] | Seq xs \<Rightarrow> take 3 xs);
          valid = filter is_motion_type listed
      in if valid = [] then [''none''] else valid)"

section \<open>Segment composer\<close>

text \<open>
  Lines 377-391, for a plan of \<open>n\<close> entries:
  \<^verbatim>\<open>segment_duration = total_frames / len(motion_types)\<close>,
  \<^verbatim>\<open>current_segment = min(int(frame_idx / segment_duration), len(motion_types) - 1)\<close>,
  \<^verbatim>\<open>segment_start = int(current_segment * segment_duration)\<close>,
  \<^verbatim>\<open>segment_end = int((current_segment + 1) * segment_duration)\<close>,
  \<^verbatim>\<open>frame_in_segment = frame_idx - segment_start\<close> and
  \<^verbatim>\<open>frames_in_segment = segment_end - segment_start\<close>.
\<close>

definition segment_duration :: "int \<Rightarrow> nat \<Rightarrow> real" where
  "segment_duration total_frames n = real_of_int total_frames / real n"

definition current_segment :: "int \<Rightarrow> nat \<Rightarrow> int \<Rightarrow> int" where
  "current_segment total_frames n frame_idx =
     min (py_int (real_of_int frame_idx / segment_duration total_frames n)) (int n - 1)"

definition segment_start :: "int \<Rightarrow> nat \<Rightarrow> int \<Rightarrow> int" where
  "segment_start total_frames n seg =
     py_int (real_of_int seg * segment_duration total_frames n)"

definition segment_end :: "int \<Rightarrow> nat \<Rightarrow> int \<Rightarrow> int" where
  "segment_end total_frames n seg =
     py_int (real_of_int (seg + 1) * segment_duration total_frames n)"

definition frame_in_segment :: "int \<Rightarrow> nat \<Rightarrow> int \<Rightarrow> int" where
  "frame_in_segment total_frames n frame_idx =
     frame_idx - segment_start total_frames n (current_segment total_frames n frame_idx)"

definition frames_in_segment :: "int \<Rightarrow> nat \<Rightarrow> int \<Rightarrow> int" where
  "frames_in_segment total_frames n frame_idx =
     segment_end total_frames n (current_segment total_frames n frame_idx)
     - segment_start total_frames n (current_segment total_frames n frame_idx)"

section \<open>External collaborators\<close>

text \<open>
  What the run reads from outside: the file system (\<open>os.path\<close>, \<open>glob.glob\<close>), the
  decoders (\<open>cv2.imread\<close>, which returns \<open>None\<close> when it cannot read, and Pillow's
  \<open>Image.open(path).convert('RGB')\<close> as an array, which may raise), and the encoder:
  whether \<open>cv2.VideoWriter(...)\<close> raises for a path, whether the write of a given
  frame index raises, and \<open>os.path.getsize\<close>.

  A stream that cannot be opened raises nothing in OpenCV: the constructor returns a
  writer whose \<open>isOpened()\<close> is \<open>False\<close>, and \<open>write\<close> on it does nothing. A frame
  the encoder cannot store is dropped by \<open>write\<close>, which returns \<open>None\<close> either way.
  \<open>isOpened\<close> is the status of the writer constructed for a path, \<open>frame_encoded\<close>
  whether the encoder stores the frame of a given index. The calls may still raise for
  other reasons (an argument of the wrong type), which \<open>VideoWriter_raises\<close> and
  \<open>write_raises\<close> stand for.
\<close>

record env =
  path_exists :: "string \<Rightarrow> bool"
  glob :: "string \<Rightarrow> string list"
  path_join :: "string \<Rightarrow> string \<Rightarrow> string"
  basename :: "string \<Rightarrow> string"
  splitext0 :: "string \<Rightarrow> string"
  imread :: "string \<Rightarrow> ndarray option"
  PIL_AVAILABLE :: bool
  Image_open_rgb :: "string \<Rightarrow> exn + ndarray"
  VideoWriter_raises :: "string \<Rightarrow> exn option"
  isOpened :: "string \<Rightarrow> bool"
  write_raises :: "string \<Rightarrow> int \<Rightarrow> exn option"
  frame_encoded :: "string \<Rightarrow> int \<Rightarrow> bool"
  getsize :: "string \<Rightarrow> exn + real"

definition image_patterns :: "string list" where
  "image_patterns = [''*.png'', ''*.jpg'', ''*.jpeg'', ''*.bmp'', ''*.tiff'', ''*.heic'']"

definition collect_images :: "env \<Rightarrow> string \<Rightarrow> string list" where
  "collect_images ev input_directory =
     (if \<not> path_exists ev input_directory then []
      else sort (concat (map (\<lambda>pattern. glob ev (path_join ev input_directory pattern))
                             image_patterns)))"

text \<open>
  \<open>read_image_with_fallback\<close>: OpenCV first (an image with four channels is converted
  to BGR); if it fails and Pillow is available, Pillow, where any exception gives
  \<open>None\<close>.
\<close>

definition read_image_with_fallback :: "env \<Rightarrow> string \<Rightarrow> ndarray option" where
  "read_image_with_fallback ev path =
     (case imread ev path of
        Some img \<Rightarrow>
          Some (if length (shape img) = 3 \<and> shape img ! 2 = 4 then cvtColor_BGRA2BGR img
                else img)
      | None \<Rightarrow>
          if PIL_AVAILABLE ev
          then (case Image_open_rgb ev path of
                  Inl e \<Rightarrow> None
                | Inr arr \<Rightarrow> Some (cvtColor_RGB2BGR arr))
          else None)"

text \<open>
  Lines 349-359 of the loop over the images: a second attempt with Pillow, and
  \<open>continue\<close> (here \<open>None\<close>) when the image cannot be read.
\<close>

definition load_image :: "env \<Rightarrow> string \<Rightarrow> ndarray option" where
  "load_image ev img_path =
     (case read_image_with_fallback ev img_path of
        Some img \<Rightarrow> Some img
      | None \<Rightarrow>
          if PIL_AVAILABLE ev
          then (case Image_open_rgb ev img_path of
                  Inl e \<Rightarrow> None
                | Inr arr \<Rightarrow> Some (cvtColor_RGB2BGR arr))
          else None)"

section \<open>The conversion\<close>

text \<open>
  The arguments of \<open>create_video_per_image_with_motion\<close>; \<open>progress_callback\<close> says
  whether a callback is given. \<open>os.makedirs(output_dir)\<close>, \<open>writer.release()\<close>, the
  messages printed and the readings of the clock are left out.
\<close>

record args =
  input_dir :: string
  output_dir :: string
  motion_types :: motion_arg
  video_duration :: real
  fps :: int
  quality :: string
  progress_callback :: bool

text \<open>
  The dict \<open>video_info\<close> and the metadata of the run. The wall-clock fields
  (\<open>time_generated\<close>, \<open>start_time\<close>, \<open>end_time\<close>, \<open>total_processing_time\<close>) and
  \<open>speed\<close> are left out; \<open>resolution\<close> is kept as the pair the source prints as
  \<open>"WxH"\<close>.
\<close>

record video_info =
  v_path :: string
  v_filename :: string
  v_size_mb :: real
  v_duration_seconds :: real
  v_fps :: int
  v_quality :: string
  v_resolution :: "nat \<times> nat"
  v_motion_effects :: "string list"

record metadata =
  videos_created :: nat
  m_quality :: string
  m_motion_effects :: "string list"

text \<open>
  What the function returns: the bare empty list of line 311, or the pair of line 432.
\<close>

datatype returned = EmptyList | Result "video_info list" metadata

text \<open>
  The state of a run: the store of image buffers, the paths a writer was constructed
  for, every frame passed to \<open>writer.write\<close> (with the path of its stream), the frames
  among them that the encoder stored in the file, every call of the progress callback,
  and the list \<open>created_videos\<close>.
\<close>

record state =
  heap :: "ndarray list"
  opened :: "string list"
  writes :: "(string \<times> ndarray) list"
  encoded :: "(string \<times> ndarray) list"
  calls :: "(int \<times> int) list"
  created_videos :: "video_info list"

definition init_state :: state where
  "init_state =
     \<lparr>heap = [], opened = [], writes = [], encoded = [], calls = [], created_videos = []\<rparr>"

text \<open>\<open>round(x, 2)\<close>, to the nearest hundredth, a tie to the even one.\<close>

definition py_round2 :: "real \<Rightarrow> real" where
  "py_round2 x =
     (let f = \<lfloor>x * 100\<rfloor>;
          r = x * 100 - real_of_int f;
          k = (if r < 1 / 2 then f else if 1 / 2 < r then f + 1
               else if even f then f else f + 1)
      in real_of_int k / 100)"

text \<open>
  Lines 397-400: a frame with two dimensions is converted from gray to BGR, one with
  four channels from BGRA to BGR; \<open>frame.shape[2]\<close> raises on fewer dimensions.
  \<open>cv2.cvtColor\<close> refuses an image without pixels; that case is left out, since a
  frame has the size of the preset, which is never empty.
\<close>

definition ensure_bgr :: "ndarray list \<Rightarrow> nat \<Rightarrow> exn + (ndarray list \<times> nat)" where
  "ensure_bgr h frame =
     (if length (shape (h ! frame)) = 2 then Inr (alloc h (cvtColor_GRAY2BGR (h ! frame)))
      else if length (shape (h ! frame)) < 3 then Inl IndexError
      else if shape (h ! frame) ! 2 = 4 then Inr (alloc h (cvtColor_BGRA2BGR (h ! frame)))
      else Inr (h, frame))"

text \<open>
  Lines 374-402, up to the argument of \<open>writer.write\<close>: the frame is a copy of the
  resized source, the effect of its segment is applied unless the entry of
  \<open>motion_functions\<close> is \<open>None\<close>, and the result is made BGR and cast to \<open>uint8\<close>.
\<close>

definition synthesize_frame ::
  "cv2 \<Rightarrow> string list \<Rightarrow> int \<Rightarrow> ndarray list \<Rightarrow> nat \<Rightarrow> int \<Rightarrow> exn + (ndarray list \<times> nat)" where
  "synthesize_frame cv plan total_frames h img frame_idx =
     (let (h1, frame) = alloc h (h ! img);
          n = length plan
      in if n = 0 \<or> segment_duration total_frames n = 0 then Inl ZeroDivisionError
         else
           (case py_index plan (current_segment total_frames n frame_idx) of
              Inl e \<Rightarrow> Inl e
            | Inr motion_type \<Rightarrow>
                (case (case map_of motion_functions motion_type of
                         Some (Some motion_func) \<Rightarrow>
                           motion_func cv h1 frame
                             (frame_in_segment total_frames n frame_idx)
                             (frames_in_segment total_frames n frame_idx)
                       | _ \<Rightarrow> Inr (h1, frame)) of
                   Inl e \<Rightarrow> Inl e
                 | Inr (h2, moved) \<Rightarrow>
                     (case ensure_bgr h2 moved of
                        Inl e \<Rightarrow> Inl e
                      | Inr (h3, bgr) \<Rightarrow> Inr (alloc h3 (astype_uint8 (h3 ! bgr)))))))"

definition write_frame ::
  "cv2 \<Rightarrow> env \<Rightarrow> string list \<Rightarrow> int \<Rightarrow> string \<Rightarrow> nat \<Rightarrow> state \<Rightarrow> int \<Rightarrow> exn + state" where
  "write_frame cv ev plan total_frames output_path img s frame_idx =
     (case synthesize_frame cv plan total_frames (heap s) img frame_idx of
        Inl e \<Rightarrow> Inl e
      | Inr (h', out) \<Rightarrow>
          (case write_raises ev output_path frame_idx of
             Some e \<Rightarrow> Inl e
           | None \<Rightarrow>
               Inr (s\<lparr>heap := h',
                      writes := writes s @ [(output_path, h' ! out)],
                      encoded := encoded s @
                        (if isOpened ev output_path \<and> frame_encoded ev output_path frame_idx
                         then [(output_path, h' ! out)] else [])\<rparr>)))"

definition output_path_of :: "env \<Rightarrow> string \<Rightarrow> string list \<Rightarrow> string \<Rightarrow> string \<Rightarrow> string" where
  "output_path_of ev out_dir plan q img_path =
     path_join ev out_dir
       (splitext0 ev (basename ev img_path) @ ''_motion_'' @ join_with ''_'' (take 3 plan)
        @ ''_'' @ q @ ''.avi'')"

text \<open>
  The body of the loop over \<open>enumerate(images)\<close>, lines 346-427: an image that cannot
  be read is skipped; otherwise it is resized, the writer is opened, every frame is
  written, the size of the file is read, the \<open>video_info\<close> is appended and the
  callback, if given, is called with \<open>(img_idx + 1, total_images)\<close>.
\<close>

definition convert_image ::
  "cv2 \<Rightarrow> env \<Rightarrow> args \<Rightarrow> string list \<Rightarrow> string \<Rightarrow> nat \<times> nat \<Rightarrow> int \<Rightarrow> nat \<Rightarrow> state
     \<Rightarrow> nat \<times> string \<Rightarrow> exn + state" where
  "convert_image cv ev a plan q tsize total_frames total_images s item_of_images =
     (case item_of_images of (img_idx, img_path) \<Rightarrow>
      (case load_image ev img_path of
         None \<Rightarrow> Inr s
       | Some decoded \<Rightarrow>
           (let (h1, img) = alloc (heap s) (resize cv decoded tsize);
                output_path = output_path_of ev (output_dir a) plan q img_path
            in case VideoWriter_raises ev output_path of
                 Some e \<Rightarrow> Inl e
               | None \<Rightarrow>
                   (case for_each (py_range 0 total_frames)
                           (write_frame cv ev plan total_frames output_path img)
                           (s\<lparr>heap := h1, opened := opened s @ [output_path]\<rparr>) of
                      Inl e \<Rightarrow> Inl e
                    | Inr s1 \<Rightarrow>
                        (case getsize ev output_path of
                           Inl e \<Rightarrow> Inl e
                         | Inr file_size \<Rightarrow>
                             Inr (s1\<lparr>created_videos := created_videos s1 @
                                       [\<lparr>v_path = output_path,
                                         v_filename = basename ev output_path,
                                         v_size_mb = py_round2 (file_size / (1024 * 1024)),
                                         v_duration_seconds = video_duration a,
                                         v_fps = fps a,
                                         v_quality = q,
                                         v_resolution = tsize,
                                         v_motion_effects = plan\<rparr>],
                                     calls := calls s1 @
                                       (if progress_callback a
                                        then [(int img_idx + 1, int total_images)]
                                        else [])\<rparr>))))))"

definition create_video_per_image_with_motion ::
  "cv2 \<Rightarrow> env \<Rightarrow> args \<Rightarrow> exn + (returned \<times> state)" where
  "create_video_per_image_with_motion cv ev a =
     (let q = effective_quality (quality a)
      in case map_of QUALITY_PRESETS q of
           None \<Rightarrow> Inl KeyError
         | Some (width, height, _) \<Rightarrow>
             (let images = collect_images ev (input_dir a)
              in if images = [] then Inr (EmptyList, init_state)
                 else
                   (let total_images = length images;
                        total_frames = py_int (video_duration a * real_of_int (fps a));
                        plan = motion_plan (motion_types a)
                    in case for_each (enumerate_from0 images)
                              (convert_image cv ev a plan q (width, height) total_frames
                                 total_images)
                              init_state of
                         Inl e \<Rightarrow> Inl e
                       | Inr s \<Rightarrow>
                           Inr (Result (created_videos s)
                                  \<lparr>videos_created = length (created_videos s),
                                   m_quality = q,
                                   m_motion_effects = plan\<rparr>,
                                s))))"

section \<open>The caller\<close>

text \<open>
  \<open>batch_worker\<close> of \<open>app.py\<close> (as the \<open>__main__\<close> block and the test script do) unpacks
  the returned value into two names, \<^verbatim>\<open>videos, metadata = ...\<close>, inside
  \<^verbatim>\<open>try: ... except Exception\<close>: unpacking an empty list raises ValueError, and any
  exception sets the status of the job to \<open>'error'\<close>.
\<close>

definition unpack_pair :: "returned \<Rightarrow> exn + (video_info list \<times> metadata)" where
  "unpack_pair r = (case r of EmptyList \<Rightarrow> Inl ValueError | Result vs md \<Rightarrow> Inr (vs, md))"

record job =
  job_status :: string
  job_output :: "video_info list"

definition batch_worker :: "cv2 \<Rightarrow> env \<Rightarrow> args \<Rightarrow> job" where
  "batch_worker cv ev a =
     (case create_video_per_image_with_motion cv ev a of
        Inl e \<Rightarrow> \<lparr>job_status = ''error'', job_output = []\<rparr>
      | Inr (r, s) \<Rightarrow>
          (case unpack_pair r of
             Inl e \<Rightarrow> \<lparr>job_status = ''error'', job_output = []\<rparr>
           | Inr (vs, md) \<Rightarrow> \<lparr>job_status = ''done'', job_output = vs\<rparr>))"

section \<open>Notions used in the statements\<close>

text \<open>
  Two results of a frame computation are the same when both raise the same exception
  or both return a buffer with the same contents. A result extends a store when every
  cell the store had is unchanged and the buffer returned is a new cell.
\<close>

definition same_frame ::
  "exn + (ndarray list \<times> nat) \<Rightarrow> exn + (ndarray list \<times> nat) \<Rightarrow> bool" where
  "same_frame r1 r2 =
     (case r1 of
        Inl e1 \<Rightarrow> (case r2 of Inl e2 \<Rightarrow> e1 = e2 | Inr _ \<Rightarrow> False)
      | Inr (h1, a1) \<Rightarrow> (case r2 of Inl _ \<Rightarrow> False | Inr (h2, a2) \<Rightarrow> h1 ! a1 = h2 ! a2))"

definition extends :: "ndarray list \<Rightarrow> exn + (ndarray list \<times> nat) \<Rightarrow> bool" where
  "extends h r =
     (case r of
        Inl e \<Rightarrow> True
      | Inr (h', a) \<Rightarrow> take (length h) h' = h \<and> length h \<le> a \<and> a < length h')"

text \<open>
  The frame of index \<open>frame_idx\<close> synthesised from a store that holds the source and
  nothing else, so that no other frame has been synthesised before it.
\<close>

definition frame_alone :: "cv2 \<Rightarrow> string list \<Rightarrow> int \<Rightarrow> ndarray \<Rightarrow> int \<Rightarrow> ndarray option" where
  "frame_alone cv plan total_frames src frame_idx =
     (case synthesize_frame cv plan total_frames [src] 0 frame_idx of
        Inl e \<Rightarrow> None
      | Inr (h, out) \<Rightarrow> Some (h ! out))"

text \<open>An image of three channels whose values are integers from 0 to 255.\<close>

definition is_uint8 :: "real \<Rightarrow> bool" where
  "is_uint8 v = (0 \<le> v \<and> v < 256 \<and> real_of_int \<lfloor>v\<rfloor> = v)"

definition is_bgr8 :: "ndarray \<Rightarrow> bool" where
  "is_bgr8 a = (length (shape a) = 3 \<and> shape a ! 2 = 3 \<and> list_all is_uint8 (data a))"

text \<open>The height and width of the buffer a frame computation returns.\<close>

definition result_dims :: "exn + (ndarray list \<times> nat) \<Rightarrow> (exn + (nat \<times> nat)) option" where
  "result_dims r = (case r of Inl e \<Rightarrow> None | Inr (h, a) \<Rightarrow> Some (shape2 (h ! a)))"

text \<open>
  What the run is expected to write for one image: nothing when the image cannot be
  read, otherwise one frame per index, each synthesised on its own from the resized
  source. A frame that cannot be synthesised is \<open>None\<close>. \<open>tagged\<close> puts the frames
  written into the same form.
\<close>

definition expected_frames ::
  "cv2 \<Rightarrow> env \<Rightarrow> args \<Rightarrow> string list \<Rightarrow> string \<Rightarrow> nat \<times> nat \<Rightarrow> int \<Rightarrow> string
     \<Rightarrow> (string \<times> ndarray option) list" where
  "expected_frames cv ev a plan q tsize total_frames img_path =
     (case load_image ev img_path of
        None \<Rightarrow> []
      | Some decoded \<Rightarrow>
          map (\<lambda>k. (output_path_of ev (output_dir a) plan q img_path,
                    frame_alone cv plan total_frames (resize cv decoded tsize) k))
              (py_range 0 total_frames))"

text \<open>
  The encoder raises nowhere for an image: not when the writer is opened, not at any
  write, not when the size of the file is read.
\<close>

definition encoder_ok :: "env \<Rightarrow> args \<Rightarrow> string list \<Rightarrow> string \<Rightarrow> int \<Rightarrow> string \<Rightarrow> bool" where
  "encoder_ok ev a plan q total_frames img_path =
     (VideoWriter_raises ev (output_path_of ev (output_dir a) plan q img_path) = None
      \<and> list_all (\<lambda>k. write_raises ev (output_path_of ev (output_dir a) plan q img_path) k = None)
                  (py_range 0 total_frames)
      \<and> \<not> isl (getsize ev (output_path_of ev (output_dir a) plan q img_path)))"

definition tagged :: "(string \<times> ndarray) list \<Rightarrow> (string \<times> ndarray option) list" where
  "tagged ws = map (\<lambda>(p, f). (p, Some f)) ws"




text \<open>
  What the encoder stores of an image: of the frames passed to \<open>writer.write\<close>, those
  of an index the encoder accepts, and none when the stream is not open. \<open>reported_size\<close>
  is the \<open>size_mb\<close> the run reports for the video of an image.
\<close>

definition stored_frames ::
  "cv2 \<Rightarrow> env \<Rightarrow> args \<Rightarrow> string list \<Rightarrow> string \<Rightarrow> nat \<times> nat \<Rightarrow> int \<Rightarrow> string
     \<Rightarrow> (string \<times> ndarray option) list" where
  "stored_frames cv ev a plan q tsize total_frames img_path =
     (case load_image ev img_path of
        None \<Rightarrow> []
      | Some decoded \<Rightarrow>
          map (\<lambda>k. (output_path_of ev (output_dir a) plan q img_path,
                    frame_alone cv plan total_frames (resize cv decoded tsize) k))
              (filter (\<lambda>k. isOpened ev (output_path_of ev (output_dir a) plan q img_path)
                           \<and> frame_encoded ev (output_path_of ev (output_dir a) plan q img_path) k)
                 (py_range 0 total_frames)))"

definition reported_size :: "env \<Rightarrow> args \<Rightarrow> string list \<Rightarrow> string \<Rightarrow> string \<Rightarrow> real" where
  "reported_size ev a plan q img_path =
     (case getsize ev (output_path_of ev (output_dir a) plan q img_path) of
        Inl e \<Rightarrow> 0
      | Inr file_size \<Rightarrow> py_round2 (file_size / (1024 * 1024)))"

text \<open>
  Two states are the same but for the frames stored when they agree on the store, the
  writers constructed, the frames passed to \<open>write\<close>, the calls of the callback and
  \<open>created_videos\<close>.
\<close>

definition forget_encoded :: "state \<Rightarrow> state" where
  "forget_encoded s = s\<lparr>encoded := []\<rparr>"

definition same_but_encoded :: "state \<Rightarrow> state \<Rightarrow> bool" where
  "same_but_encoded s t = (forget_encoded s = forget_encoded t)"


text \<open>
  Every frame of an image can be synthesised, and the number of frames of a run,
  \<^verbatim>\<open>total_frames = int(video_duration * fps)\<close>. The product is the exact product of
  the two numbers: Python rounds the product of two floats to the nearest float before
  \<open>int\<close> truncates it, so the two can differ by one when the exact product lies within
  a rounding error of an integer. The statements about a run hold for every number of
  frames, and in the runs evaluated below (0.2 seconds at 10 frames per second) the
  product of the floats is exactly 2.
\<close>

definition frames_ok :: "cv2 \<Rightarrow> env \<Rightarrow> string list \<Rightarrow> nat \<times> nat \<Rightarrow> int \<Rightarrow> string \<Rightarrow> bool" where
  "frames_ok cv ev plan tsize total_frames img_path =
     (case load_image ev img_path of
        None \<Rightarrow> True
      | Some decoded \<Rightarrow>
          list_all (\<lambda>k. frame_alone cv plan total_frames (resize cv decoded tsize) k \<noteq> None)
            (py_range 0 total_frames))"


definition total_frames_of :: "args \<Rightarrow> int" where
  "total_frames_of a = py_int (video_duration a * real_of_int (fps a))"


section \<open>A small world to run in\<close>

text \<open>
  Collaborators for concrete runs: a directory \<open>Input\<close> that holds \<open>a.png\<close> and
  \<open>b.png\<close>, an encoder whose writes never raise, and pixel functions that fill their
  result with one value. What the decoder returns for each file, and whether opening a
  writer raises, are parameters.
\<close>

definition demo_cv :: cv2 where
  "demo_cv =
     \<lparr>warpAffine_px = (\<lambda>src M dsize. replicate (snd dsize * fst dsize * pixel_len src) 0),
      GaussianBlur_px = (\<lambda>src ksize sigma. data src),
      remap_px = (\<lambda>src map_x map_y. replicate (prod_list (take 2 (shape map_x)) * pixel_len src) 0),
      resize_px = (\<lambda>src dsize. replicate (snd dsize * fst dsize * pixel_len src)
                                   (case data src of [] \<Rightarrow> 0 | v # _ \<Rightarrow> v))\<rparr>"

definition demo_env :: "(string \<Rightarrow> ndarray option) \<Rightarrow> (string \<Rightarrow> exn option) \<Rightarrow> env" where
  "demo_env decode open_raises =
     \<lparr>path_exists = (\<lambda>d. d = ''Input''),
      glob = (\<lambda>pattern. if pattern = ''Input/*.png'' then [''Input/b.png'', ''Input/a.png'']
                        else []),
      path_join = (\<lambda>d f. d @ ''/'' @ f),
      basename = (\<lambda>p. rev (takeWhile (\<lambda>c. c \<noteq> CHR ''/'') (rev p))),
      splitext0 = (\<lambda>f. takeWhile (\<lambda>c. c \<noteq> CHR ''.'') f),
      imread = decode,
      PIL_AVAILABLE = False,
      Image_open_rgb = (\<lambda>p. Inl OSError),
      VideoWriter_raises = open_raises,
      isOpened = (\<lambda>p. True),
      write_raises = (\<lambda>p k. None),
      frame_encoded = (\<lambda>p k. True),
      getsize = (\<lambda>p. Inr 1024)\<rparr>"

definition demo_args :: "string \<Rightarrow> args" where
  "demo_args dir =
     \<lparr>input_dir = dir, output_dir = ''Output'', motion_types = Seq [''none''],
      video_duration = 0.2, fps = 10, quality = ''360p'', progress_callback = True\<rparr>"


definition broken_then_colour :: "string \<Rightarrow> ndarray option" where
  "broken_then_colour p =
     (if p = ''Input/b.png'' then Some \<lparr>shape = [1, 1, 3], data = [10, 20, 30]\<rparr> else None)"


definition never_raises :: "string \<Rightarrow> exn option" where
  "never_raises p = None"


text \<open>
  Encoders that fail without raising: one whose stream never opens and leaves an empty
  file, and one that stores the first frame of a stream and drops the others, leaving
  a file of one mebibyte.
\<close>

definition with_encoder ::
  "(string \<Rightarrow> bool) \<Rightarrow> (string \<Rightarrow> int \<Rightarrow> bool) \<Rightarrow> (string \<Rightarrow> exn + real) \<Rightarrow> env \<Rightarrow> env" where
  "with_encoder opn enc file_size ev =
     ev\<lparr>isOpened := opn, frame_encoded := enc, getsize := file_size\<rparr>"

definition never_opens :: env where
  "never_opens =
     with_encoder (\<lambda>p. False) (\<lambda>p k. True) (\<lambda>p. Inr 0)
       (demo_env broken_then_colour never_raises)"

definition drops_second_frame :: env where
  "drops_second_frame =
     with_encoder (\<lambda>p. True) (\<lambda>p k. k < 1) (\<lambda>p. Inr 1048576)
       (demo_env broken_then_colour never_raises)"


text \<open>A state whose store holds one BGR frame of 2 by 2 pixels.\<close>

definition demo_state :: state where
  "demo_state =
     init_state\<lparr>heap := [\<lparr>shape = [2, 2, 3], data = [5, 5, 5, 5, 5, 5, 5, 5, 5, 5, 5, 5]\<rparr>]\<rparr>"


section \<open>Properties of the motion plan\<close>

lemma motion_keys:
  "is_motion_type mt \<longleftrightarrow>
     mt \<in> set [''subtle'', ''ken-burns'', ''360-pan'', ''tilt-shift'', ''zoom-in'', ''zoom-out'',
                ''dolly-zoom'', ''wave'', ''radial-blur'', ''rotation'', ''flip'', ''none'']"
  unfolding is_motion_type_def motion_functions_def
  by (simp only: map_of_eq_None_iff not_not set_map [symmetric] list.map fst_conv)

text \<open>
  C5. The effective plan has at most three entries, is never empty, and holds only
  keys of \<open>motion_functions\<close>; for a sequence it is the recognised entries among the
  first three, or \<open>['none']\<close> when there are none. The input
  \<open>["foo", "zoom-in", "bar"]\<close> gives \<open>["zoom-in"]\<close>, and five recognised names give the
  first three.
\<close>

theorem motion_plan_effective:
  "length (motion_plan arg) \<le> 3
   \<and> motion_plan arg \<noteq> []
   \<and> list_all is_motion_type (motion_plan arg)
   \<and> (filter is_motion_type (take 3 xs) = [] \<longrightarrow> motion_plan (Seq xs) = [''none''])
   \<and> (filter is_motion_type (take 3 xs) \<noteq> []
        \<longrightarrow> motion_plan (Seq xs) = filter is_motion_type (take 3 xs))
   \<and> motion_plan (Seq [''foo'', ''zoom-in'', ''bar'']) = [''zoom-in'']
   \<and> (length ys = 5 \<and> list_all is_motion_type ys \<longrightarrow> motion_plan (Seq ys) = take 3 ys)"
proof -
  have len: "length (motion_plan arg) \<le> 3"
  proof (cases arg)
    case (Str s)
    then show ?thesis by (simp add: motion_plan_def Let_def)
  next
    case (Seq zs)
    have "length (filter is_motion_type (take 3 zs)) \<le> length (take 3 zs)"
      by (rule length_filter_le)
    then show ?thesis using Seq by (simp add: motion_plan_def Let_def)
  qed
  have ne: "motion_plan arg \<noteq> []"
    by (simp add: motion_plan_def Let_def)
  have valid: "list_all is_motion_type (motion_plan arg)"
    by (simp add: motion_plan_def Let_def motion_keys list_all_iff)
  have none: "filter is_motion_type (take 3 xs) = [] \<longrightarrow> motion_plan (Seq xs) = [''none'']"
    by (simp add: motion_plan_def)
  have some: "filter is_motion_type (take 3 xs) \<noteq> []
      \<longrightarrow> motion_plan (Seq xs) = filter is_motion_type (take 3 xs)"
    by (simp add: motion_plan_def)
  have ex: "motion_plan (Seq [''foo'', ''zoom-in'', ''bar'']) = [''zoom-in'']"
    by (simp add: motion_plan_def motion_keys)
  have five: "length ys = 5 \<and> list_all is_motion_type ys \<longrightarrow> motion_plan (Seq ys) = take 3 ys"
  proof
    assume a: "length ys = 5 \<and> list_all is_motion_type ys"
    then have "list_all is_motion_type (take 3 ys)"
      by (auto simp: list_all_iff dest: in_set_takeD)
    then have "filter is_motion_type (take 3 ys) = take 3 ys"
      by (simp add: list_all_iff)
    moreover have "take 3 ys \<noteq> []" using a by auto
    ultimately show "motion_plan (Seq ys) = take 3 ys" by (simp add: motion_plan_def Let_def)
  qed
  from len ne valid none some ex five show ?thesis by blast
qed

theorem motion_plan_effective_witness:
  "length (motion_plan (Seq [''zoom-out'', ''foo'', ''wave'', ''flip'', ''subtle''])) \<le> 3
   \<and> motion_plan (Seq [''foo'', ''bar'']) = [''none'']
   \<and> motion_plan (Seq [''zoom-out'', ''foo'', ''wave'', ''flip'', ''subtle''])
       = [''zoom-out'', ''wave'']
   \<and> length [''subtle'', ''wave'', ''flip'', ''none'', ''rotation''] = 5
   \<and> list_all is_motion_type [''subtle'', ''wave'', ''flip'', ''none'', ''rotation'']
   \<and> motion_plan (Seq [''subtle'', ''wave'', ''flip'', ''none'', ''rotation''])
       = [''subtle'', ''wave'', ''flip'']"
proof -
  note inst = motion_plan_effective
    [of "Seq [''zoom-out'', ''foo'', ''wave'', ''flip'', ''subtle'']"
        "[''foo'', ''bar'']"
        "[''subtle'', ''wave'', ''flip'', ''none'', ''rotation'']"]
  have empty: "filter is_motion_type (take 3 [''foo'', ''bar'']) = []"
    by (simp add: motion_keys)
  have five: "length [''subtle'', ''wave'', ''flip'', ''none'', ''rotation''] = 5
      \<and> list_all is_motion_type [''subtle'', ''wave'', ''flip'', ''none'', ''rotation'']"
    by (simp add: motion_keys)
  have cut: "motion_plan (Seq [''zoom-out'', ''foo'', ''wave'', ''flip'', ''subtle''])
      = [''zoom-out'', ''wave'']"
    by (simp add: motion_plan_def motion_keys)
  have first3: "take 3 [''subtle'', ''wave'', ''flip'', ''none'', ''rotation'']
      = [''subtle'', ''wave'', ''flip'']"
    by simp
  from inst empty five cut first3 show ?thesis by metis
qed

text \<open>
  C10. The sequence is cut to three entries before the unrecognised ones are removed:
  when none of the first three entries is a key of \<open>motion_functions\<close> the plan is
  \<open>['none']\<close>, whatever follows them.
\<close>

theorem truncation_before_filtering:
  "list_all (\<lambda>mt. \<not> is_motion_type mt) (take 3 xs) \<Longrightarrow> motion_plan (Seq xs) = [''none'']"
proof -
  assume "list_all (\<lambda>mt. \<not> is_motion_type mt) (take 3 xs)"
  then have "filter is_motion_type (take 3 xs) = []"
    by (simp add: list_all_iff filter_empty_conv)
  then show ?thesis by (simp add: motion_plan_def)
qed

theorem truncation_before_filtering_witness:
  "list_all (\<lambda>mt. \<not> is_motion_type mt) (take 3 [''foo'', ''bar'', ''baz'', ''zoom-in'', ''flip''])
   \<and> is_motion_type ''zoom-in'' \<and> is_motion_type ''flip''
   \<and> motion_plan (Seq [''foo'', ''bar'', ''baz'', ''zoom-in'', ''flip'']) = [''none'']"
proof -
  have hyp: "list_all (\<lambda>mt. \<not> is_motion_type mt)
               (take 3 [''foo'', ''bar'', ''baz'', ''zoom-in'', ''flip''])"
    by (simp add: motion_keys)
  have valid: "is_motion_type ''zoom-in'' \<and> is_motion_type ''flip''"
    by (simp add: motion_keys)
  show ?thesis
    using hyp valid truncation_before_filtering [OF hyp] by simp
qed

section \<open>Properties of the segment composer\<close>

lemmas segment_defs = segment_duration_def current_segment_def segment_start_def
  segment_end_def frame_in_segment_def frames_in_segment_def py_int_def

text \<open>
  C1. With the default 50 frames (5.0 s at 10 fps) and a plan of three effects, frame 16
  is given segment 0, whose range is \<open>[0, 16)\<close>: its local index is 16 and the local
  total is 16, so the local index is not below the local total and the progress the
  effect computes is 16/15. With one frame and a plan of two effects the local total
  is 0.
\<close>

theorem frame_outside_its_segment:
  "current_segment 50 3 16 = 0
   \<and> segment_start 50 3 0 = 0
   \<and> segment_end 50 3 0 = 16
   \<and> frame_in_segment 50 3 16 = 16
   \<and> frames_in_segment 50 3 16 = 16
   \<and> progress_of (frame_in_segment 50 3 16) (frames_in_segment 50 3 16) = 16 / 15
   \<and> frames_in_segment 1 2 0 = 0"
  by (simp add: segment_defs progress_of_def)

text \<open>
  What does hold of the segments: the ranges follow one another from 0 to
  \<open>total_frames\<close>, so they cover the frames without gap or overlap, and a frame is
  never before the start of its segment and at most one past its end.
\<close>

lemma py_int_nonneg: "0 \<le> x \<Longrightarrow> py_int x = \<lfloor>x\<rfloor>"
  by (simp add: py_int_def)

lemma segment_ranges_contiguous: "segment_end T n s = segment_start T n (s + 1)"
  by (simp add: segment_end_def segment_start_def)

lemma first_segment_start: "segment_start T n 0 = 0"
  by (simp add: segment_start_def py_int_def)

lemma last_segment_end: "0 \<le> T \<Longrightarrow> 0 < n \<Longrightarrow> segment_end T n (int n - 1) = T"
  by (simp add: segment_defs)

lemma segment_start_floor:
  assumes "0 \<le> T" "0 \<le> s" "0 < n"
  shows "segment_start T n s = (s * T) div int n"
proof -
  have "real_of_int s * (real_of_int T / real n) = real_of_int (s * T) / real_of_int (int n)"
    by simp
  moreover have "0 \<le> real_of_int s * (real_of_int T / real n)" using assms by simp
  ultimately show ?thesis unfolding segment_start_def segment_duration_def
    by (simp only: py_int_nonneg floor_divide_of_int_eq)
qed

lemma current_segment_floor:
  assumes "0 < T" "0 \<le> i" "0 < n"
  shows "current_segment T n i = min ((i * int n) div T) (int n - 1)"
proof -
  have "real_of_int i / (real_of_int T / real n) = real_of_int (i * int n) / real_of_int T"
    by simp
  moreover have "0 \<le> real_of_int i / (real_of_int T / real n)" using assms by simp
  ultimately show ?thesis unfolding current_segment_def segment_duration_def
    by (simp only: py_int_nonneg floor_divide_of_int_eq)
qed

lemma current_segment_range:
  assumes "0 < T" "0 \<le> i" "0 < n"
  shows "0 \<le> current_segment T n i \<and> current_segment T n i < int n"
  using assms by (simp add: current_segment_floor pos_imp_zdiv_nonneg_iff)

lemma segment_ranges_ordered:
  assumes "0 \<le> T" "0 \<le> s" "0 < n"
  shows "segment_start T n s \<le> segment_end T n s"
proof -
  have "(s * T) div int n \<le> ((s + 1) * T) div int n"
    using assms by (intro zdiv_mono1) (simp_all add: mult_right_mono)
  then show ?thesis using assms
    by (simp add: segment_ranges_contiguous segment_start_floor)
qed

lemma frame_not_before_its_segment:
  assumes "0 < T" "0 \<le> i" "0 < n"
  shows "0 \<le> frame_in_segment T n i"
proof -
  let ?s = "current_segment T n i"
  have s0: "0 \<le> ?s" using current_segment_range [OF assms] by simp
  have sle: "?s \<le> (i * int n) div T" using assms by (simp add: current_segment_floor)
  have "?s * T \<le> ((i * int n) div T) * T" using sle assms by (simp add: mult_right_mono)
  also have "\<dots> \<le> i * int n" using assms
    by (simp add: minus_mod_eq_div_mult [symmetric])
  finally have "(?s * T) div int n \<le> (i * int n) div int n"
    by (rule zdiv_mono1) (use assms in simp)
  then have "segment_start T n ?s \<le> i" using assms s0 by (simp add: segment_start_floor)
  then show ?thesis by (simp add: frame_in_segment_def)
qed

lemma frame_at_most_one_past_its_segment:
  assumes "0 < T" "0 \<le> i" "i < T" "0 < n"
  shows "frame_in_segment T n i \<le> frames_in_segment T n i"
proof -
  let ?s = "current_segment T n i"
  have s0: "0 \<le> ?s" using current_segment_range [OF assms(1,2,4)] by simp
  have "i \<le> segment_end T n ?s"
  proof (cases "(i * int n) div T \<le> int n - 1")
    case True
    then have s: "?s = (i * int n) div T" using assms by (simp add: current_segment_floor)
    have "i * int n = ((i * int n) div T) * T + (i * int n) mod T" by simp
    moreover have "(i * int n) mod T < T" using assms(1) by simp
    ultimately have "i * int n < ((i * int n) div T) * T + T" by linarith
    then have "i * int n \<le> (?s + 1) * T" using s by (simp add: algebra_simps)
    then have "(i * int n) div int n \<le> ((?s + 1) * T) div int n"
      by (rule zdiv_mono1) (use assms in simp)
    then show ?thesis using assms s0
      by (simp add: segment_ranges_contiguous segment_start_floor)
  next
    case False
    then have "?s = int n - 1" using assms by (simp add: current_segment_floor)
    then show ?thesis using assms by (simp add: last_segment_end)
  qed
  then show ?thesis by (simp add: frame_in_segment_def frames_in_segment_def)
qed

section \<open>Properties of the effect library\<close>

subsection \<open>What an effect does to the store\<close>

lemma subtle_extends: "extends h (apply_subtle_motion cv h img i t)"
  by (simp add: extends_def apply_subtle_motion_def alloc_def Let_def split: sum.split prod.split)

lemma subtle_same:
  "h ! a = k ! b \<Longrightarrow>
   same_frame (apply_subtle_motion cv h a i t) (apply_subtle_motion cv k b i t)"
  by (simp add: same_frame_def apply_subtle_motion_def alloc_def Let_def
           split: sum.split prod.split)

lemma ken_burns_extends: "extends h (apply_ken_burns_effect cv h img i t)"
  by (simp add: extends_def apply_ken_burns_effect_def alloc_def Let_def
           split: sum.split prod.split)

lemma ken_burns_same:
  "h ! a = k ! b \<Longrightarrow>
   same_frame (apply_ken_burns_effect cv h a i t) (apply_ken_burns_effect cv k b i t)"
  by (simp add: same_frame_def apply_ken_burns_effect_def alloc_def Let_def
           split: sum.split prod.split)

lemma pan_extends: "extends h (apply_360_pan_effect cv h img i t)"
  by (simp add: extends_def apply_360_pan_effect_def alloc_def Let_def
           split: sum.split prod.split)

lemma pan_same:
  "h ! a = k ! b \<Longrightarrow>
   same_frame (apply_360_pan_effect cv h a i t) (apply_360_pan_effect cv k b i t)"
  by (simp add: same_frame_def apply_360_pan_effect_def alloc_def Let_def nth_append
           split: sum.split prod.split)

lemma tilt_shift_extends: "extends h (apply_tilt_shift_effect cv h img i t)"
  by (simp add: extends_def apply_tilt_shift_effect_def alloc_def Let_def
           split: sum.split prod.split)

lemma tilt_shift_same:
  "h ! a = k ! b \<Longrightarrow>
   same_frame (apply_tilt_shift_effect cv h a i t) (apply_tilt_shift_effect cv k b i t)"
  by (simp add: same_frame_def apply_tilt_shift_effect_def alloc_def Let_def nth_append
           split: sum.split prod.split)

lemma zoom_in_extends: "extends h (apply_zoom_in_effect cv h img i t)"
  by (simp add: extends_def apply_zoom_in_effect_def alloc_def Let_def
           split: sum.split prod.split)

lemma zoom_in_same:
  "h ! a = k ! b \<Longrightarrow>
   same_frame (apply_zoom_in_effect cv h a i t) (apply_zoom_in_effect cv k b i t)"
  by (simp add: same_frame_def apply_zoom_in_effect_def alloc_def Let_def
           split: sum.split prod.split)

lemma zoom_out_extends: "extends h (apply_zoom_out_effect cv h img i t)"
  by (simp add: extends_def apply_zoom_out_effect_def alloc_def Let_def
           split: sum.split prod.split)

lemma zoom_out_same:
  "h ! a = k ! b \<Longrightarrow>
   same_frame (apply_zoom_out_effect cv h a i t) (apply_zoom_out_effect cv k b i t)"
  by (simp add: same_frame_def apply_zoom_out_effect_def alloc_def Let_def
           split: sum.split prod.split)

lemma dolly_zoom_extends: "extends h (apply_dolly_zoom_effect cv h img i t)"
  by (simp add: extends_def apply_dolly_zoom_effect_def alloc_def Let_def
           split: sum.split prod.split)

lemma dolly_zoom_same:
  "h ! a = k ! b \<Longrightarrow>
   same_frame (apply_dolly_zoom_effect cv h a i t) (apply_dolly_zoom_effect cv k b i t)"
  by (simp add: same_frame_def apply_dolly_zoom_effect_def alloc_def Let_def nth_append
           split: sum.split prod.split)

lemma wave_extends: "extends h (apply_wave_effect cv h img i t)"
  by (simp add: extends_def apply_wave_effect_def alloc_def Let_def split: sum.split prod.split)

lemma wave_same:
  "h ! a = k ! b \<Longrightarrow>
   same_frame (apply_wave_effect cv h a i t) (apply_wave_effect cv k b i t)"
  by (simp add: same_frame_def apply_wave_effect_def alloc_def Let_def nth_append
           split: sum.split prod.split)

lemma rotation_extends: "extends h (apply_rotation_effect cv h img i t)"
  by (simp add: extends_def apply_rotation_effect_def alloc_def Let_def
           split: sum.split prod.split)

lemma rotation_same:
  "h ! a = k ! b \<Longrightarrow>
   same_frame (apply_rotation_effect cv h a i t) (apply_rotation_effect cv k b i t)"
  by (simp add: same_frame_def apply_rotation_effect_def alloc_def Let_def
           split: sum.split prod.split)

lemma flip_extends: "extends h (apply_flip_effect cv h img i t)"
  by (simp add: extends_def apply_flip_effect_def alloc_def Let_def split: sum.split prod.split)

lemma flip_same:
  "h ! a = k ! b \<Longrightarrow>
   same_frame (apply_flip_effect cv h a i t) (apply_flip_effect cv k b i t)"
  by (simp add: same_frame_def apply_flip_effect_def alloc_def Let_def nth_append
           split: sum.split prod.split)

text \<open>
  The radial blur writes into \<open>result\<close> in place. The buffer is the cell the effect
  created for it, so no cell of the caller changes.
\<close>

lemma radial_step_cases:
  "r < length hh \<Longrightarrow>
   radial_blur_step cv img c w ht r hh i =
     (let Z = warpAffine cv (hh ! img) (getRotationMatrix2D c 0 (1.0 + 0.05 * real_of_int i)) (w, ht)
      in case elementwise (+) (hh ! r) Z of
        Inl e \<Rightarrow> Inl e
      | Inr summed \<Rightarrow>
          if shape summed = shape (hh ! r)
          then Inr ((hh @ [hh ! img, Z])[r := summed])
          else Inl ValueError)"
  by (simp add: radial_blur_step_def iadd_def alloc_def Let_def astype_float32_def nth_append
           cong: sum.case_cong if_cong)

lemma radial_loop_prefix:
  "for_each xs (radial_blur_step cv img c w ht r) hh = Inr hh' \<Longrightarrow> n \<le> r \<Longrightarrow> r < length hh
   \<Longrightarrow> take n hh' = take n hh \<and> length hh \<le> length hh'"
proof (induction xs arbitrary: hh)
  case Nil
  then show ?case by simp
next
  case (Cons i xs)
  from Cons.prems(1) obtain h1 where
    step: "radial_blur_step cv img c w ht r hh i = Inr h1"
    and rest: "for_each xs (radial_blur_step cv img c w ht r) h1 = Inr hh'"
    by (auto split: sum.splits)
  from step have h1: "take n h1 = take n hh \<and> length hh \<le> length h1 \<and> r < length h1"
    using Cons.prems(2,3)
    by (auto simp: radial_step_cases Let_def split: sum.splits if_splits)
  with Cons.IH [OF rest Cons.prems(2)] show ?case by auto
qed

lemma radial_loop_same:
  "hh ! a = kk ! b \<Longrightarrow> hh ! r = kk ! q \<Longrightarrow> a < r \<Longrightarrow> r < length hh \<Longrightarrow> b < q \<Longrightarrow> q < length kk
   \<Longrightarrow> (case for_each xs (radial_blur_step cv a c w ht r) hh of
         Inl e \<Rightarrow> for_each xs (radial_blur_step cv b c w ht q) kk = Inl e
       | Inr hh' \<Rightarrow> (\<exists>kk'. for_each xs (radial_blur_step cv b c w ht q) kk = Inr kk'
                        \<and> hh' ! r = kk' ! q))"
proof (induction xs arbitrary: hh kk)
  case Nil
  then show ?case by simp
next
  case (Cons i xs)
  let ?Z = "warpAffine cv (hh ! a) (getRotationMatrix2D c 0 (1.0 + 0.05 * real_of_int i)) (w, ht)"
  have ra: "r < length hh" and qb: "q < length kk" using Cons.prems by simp_all
  note sa = radial_step_cases [OF ra, of cv a c w ht i]
  note sb = radial_step_cases [OF qb, of cv b c w ht i]
  show ?case
  proof (cases "radial_blur_step cv a c w ht r hh i")
    case (Inl e)
    then have "radial_blur_step cv b c w ht q kk i = Inl e"
      using Cons.prems(1,2) unfolding sa sb
      by (auto simp: Let_def split: sum.splits if_splits)
    with Inl show ?thesis by simp
  next
    case (Inr h1)
    then obtain summed where s: "elementwise (+) (hh ! r) ?Z = Inr summed"
      "shape summed = shape (hh ! r)" "h1 = (hh @ [hh ! a, ?Z])[r := summed]"
      unfolding sa by (auto simp: Let_def split: sum.splits if_splits)
    define k1 where "k1 = (kk @ [kk ! b, ?Z])[q := summed]"
    have kstep: "radial_blur_step cv b c w ht q kk i = Inr k1"
      unfolding sb using s Cons.prems(1,2) by (simp add: Let_def k1_def)
    have "h1 ! a = k1 ! b" "h1 ! r = k1 ! q" "a < r" "r < length h1" "b < q" "q < length k1"
      using Cons.prems s(3) by (simp_all add: k1_def nth_append)
    from Cons.IH [OF this] Inr kstep show ?thesis by (auto split: sum.splits)
  qed
qed

lemma radial_blur_extends: "extends h (apply_radial_blur_effect cv h img i t)"
proof (cases "shape2 (h ! img)")
  case (Inl e)
  then show ?thesis by (simp add: extends_def apply_radial_blur_effect_def)
next
  case (Inr hw)
  obtain ht w where hw: "hw = (ht, w)" by (cases hw)
  show ?thesis
  proof (cases "for_each (py_range 0 (py_int (1 + 4 * progress_of i t)))
                  (radial_blur_step cv img (w div 2, ht div 2) w ht (length h)) (h @ [h ! img])")
    case (Inl e)
    then show ?thesis using Inr hw
      by (simp add: extends_def apply_radial_blur_effect_def alloc_def astype_float32_def)
  next
    case (Inr h2)
    from radial_loop_prefix [OF Inr, of "length h"]
    have "take (length h) h2 = h \<and> Suc (length h) \<le> length h2" by simp
    then show ?thesis using \<open>shape2 (h ! img) = Inr hw\<close> hw Inr
      by (simp add: extends_def apply_radial_blur_effect_def alloc_def astype_float32_def)
  qed
qed

lemma radial_blur_same:
  assumes "h ! a = k ! b" "a < length h" "b < length k"
  shows "same_frame (apply_radial_blur_effect cv h a i t) (apply_radial_blur_effect cv k b i t)"
proof (cases "shape2 (h ! a)")
  case (Inl e)
  then show ?thesis using assms by (simp add: same_frame_def apply_radial_blur_effect_def)
next
  case (Inr hw)
  obtain ht w where hw: "hw = (ht, w)" by (cases hw)
  let ?xs = "py_range 0 (py_int (1 + 4 * progress_of i t))"
  let ?c = "(w div 2, ht div 2)"
  have pre: "(h @ [h ! a]) ! a = (k @ [k ! b]) ! b"
    "(h @ [h ! a]) ! length h = (k @ [k ! b]) ! length k"
    "a < length h" "length h < length (h @ [h ! a])" "b < length k" "length k < length (k @ [k ! b])"
    using assms by (simp_all add: nth_append)
  from radial_loop_same [OF pre, of ?xs cv ?c w ht]
  show ?thesis using Inr hw assms(1)
    by (auto simp: same_frame_def apply_radial_blur_effect_def alloc_def astype_float32_def
             split: sum.splits)
qed

subsection \<open>Height and width of the result\<close>

lemma progress_bounds:
  assumes "0 \<le> i" "i < t"
  shows "0 \<le> progress_of i t \<and> progress_of i t \<le> 1"
proof -
  have "real_of_int i \<le> real_of_int (max (t - 1) 1)" using assms by simp
  moreover have "0 < real_of_int (max (t - 1) 1)" by simp
  ultimately show ?thesis using assms unfolding progress_of_def
    by (simp add: divide_le_eq_1)
qed

lemma pan_start:
  assumes "0 \<le> i" "i < t"
  shows "0 \<le> py_int (real_of_int (int (3 * w) - int w) * progress_of i t)
       \<and> py_int (real_of_int (int (3 * w) - int w) * progress_of i t) \<le> 2 * int w"
proof -
  let ?p = "progress_of i t"
  from progress_bounds [OF assms] have p: "0 \<le> ?p" "?p \<le> 1" by simp_all
  have eq: "real_of_int (int (3 * w) - int w) = 2 * real w" by simp
  have nn: "0 \<le> 2 * real w * ?p" using p by simp
  have le: "2 * real w * ?p \<le> 2 * real w" using p by (simp add: mult_left_le)
  have "\<lfloor>2 * real w * ?p\<rfloor> \<le> \<lfloor>2 * real w\<rfloor>" using le by (rule floor_mono)
  also have "\<lfloor>2 * real w\<rfloor> = 2 * int w"
  proof -
    have "2 * real w = real_of_int (2 * int w)" by simp
    then show ?thesis by (simp only: floor_of_int)
  qed
  finally have up: "\<lfloor>2 * real w * ?p\<rfloor> \<le> 2 * int w" .
  have "0 \<le> \<lfloor>2 * real w * ?p\<rfloor>" using nn by simp
  then show ?thesis using up nn unfolding eq py_int_def by simp
qed

lemma pan_dims:
  assumes "0 \<le> i" "i < t" "shape2 (h ! a) = Inr d"
  shows "result_dims (apply_360_pan_effect cv h a i t) = Some (Inr d)"
proof (cases "shape (h ! a)")
  case Nil
  then show ?thesis using assms(3) by (simp add: shape2_def)
next
  case (Cons ht r1)
  show ?thesis
  proof (cases r1)
    case Nil
    then show ?thesis using Cons assms(3) by (simp add: shape2_def)
  next
    case (Cons w rest)
    let ?sx = "py_int (real_of_int (int (3 * w) - int w) * progress_of i t)"
    from pan_start [OF assms(1,2), of w] have b: "0 \<le> ?sx" "?sx \<le> 2 * int w" by simp_all
    have lo: "slice_index (3 * w) ?sx = nat ?sx" using b by (simp add: slice_index_def)
    have hi: "slice_index (3 * w) (?sx + int w) = nat ?sx + w" using b
      by (simp add: slice_index_def nat_add_distrib)
    show ?thesis using \<open>shape (h ! a) = ht # r1\<close> Cons lo hi assms(3)
      by (auto simp add: result_dims_def apply_360_pan_effect_def shape2_def alloc_def hstack3_def
               slice_cols_def Let_def nth_append)
  qed
qed


lemma warp_dims2: "shape2 (warpAffine cv a M (w, ht)) = Inr (ht, w)"
  by (simp add: shape2_def warpAffine_def)

lemma zoom_in_dims: "shape2 (h ! a) = Inr d \<Longrightarrow> result_dims (apply_zoom_in_effect cv h a i t) = Some (Inr d)"
  by (auto simp: result_dims_def apply_zoom_in_effect_def alloc_def Let_def warp_dims2 split: sum.splits prod.splits)

lemma zoom_out_dims: "shape2 (h ! a) = Inr d \<Longrightarrow> result_dims (apply_zoom_out_effect cv h a i t) = Some (Inr d)"
  by (auto simp: result_dims_def apply_zoom_out_effect_def alloc_def Let_def warp_dims2 split: sum.splits prod.splits)

lemma subtle_dims: "shape2 (h ! a) = Inr d \<Longrightarrow> result_dims (apply_subtle_motion cv h a i t) = Some (Inr d)"
  by (auto simp: result_dims_def apply_subtle_motion_def alloc_def Let_def warp_dims2 split: sum.splits prod.splits)

lemma ken_dims: "shape2 (h ! a) = Inr d \<Longrightarrow> result_dims (apply_ken_burns_effect cv h a i t) = Some (Inr d)"
  by (auto simp: result_dims_def apply_ken_burns_effect_def alloc_def Let_def warp_dims2 split: sum.splits prod.splits)

lemma rotation_dims: "shape2 (h ! a) = Inr d \<Longrightarrow> result_dims (apply_rotation_effect cv h a i t) = Some (Inr d)"
  by (auto simp: result_dims_def apply_rotation_effect_def alloc_def Let_def warp_dims2 split: sum.splits prod.splits)

lemma dolly_dims: "shape2 (h ! a) = Inr d \<Longrightarrow> result_dims (apply_dolly_zoom_effect cv h a i t) = Some (Inr d)"
  by (auto simp: result_dims_def apply_dolly_zoom_effect_def alloc_def Let_def warp_dims2 nth_append split: sum.splits prod.splits)

lemma flip_dims: "shape2 (h ! a) = Inr d \<Longrightarrow> result_dims (apply_flip_effect cv h a i t) = Some (Inr d)"
  by (auto simp: result_dims_def apply_flip_effect_def alloc_def Let_def warp_dims2 nth_append split: sum.splits prod.splits)

lemma wave_dims: "shape2 (h ! a) = Inr d \<Longrightarrow> result_dims (apply_wave_effect cv h a i t) = Some (Inr d)"
  by (auto simp: result_dims_def apply_wave_effect_def alloc_def Let_def remap_def wave_map_def
        astype_float32_def shape2_def split: sum.splits list.splits prod.splits)


lemma broadcast_rev_same: "broadcast_rev xs xs = Some xs"
  by (induction xs) simp_all

lemma broadcast_same: "broadcast_shapes s s = Some s"
  by (simp add: broadcast_shapes_def broadcast_rev_same)

lemma elementwise_same_shape:
  "shape x = shape y \<Longrightarrow> \<exists>z. elementwise f x y = Inr z \<and> shape z = shape x"
  by (simp add: elementwise_def broadcast_same)

lemma radial_step_ok:
  assumes "r < length hh" "shape (hh ! img) = ht # w # rest" "shape (hh ! r) = ht # w # rest"
  shows "\<exists>hh'. radial_blur_step cv img c w ht r hh i = Inr hh' \<and> length hh \<le> length hh'
          \<and> shape (hh' ! r) = ht # w # rest \<and> (img < length hh \<longrightarrow> img \<noteq> r \<longrightarrow> hh' ! img = hh ! img)"
proof -
  let ?Z = "warpAffine cv (hh ! img) (getRotationMatrix2D c 0 (1.0 + 0.05 * real_of_int i)) (w, ht)"
  have "shape ?Z = shape (hh ! r)" using assms by (simp add: warpAffine_def)
  then have "shape (hh ! r) = shape ?Z" by simp
  from elementwise_same_shape [OF this, of "(+)"] obtain z where
    z: "elementwise (+) (hh ! r) ?Z = Inr z" "shape z = shape (hh ! r)" by auto
  have "radial_blur_step cv img c w ht r hh i = Inr ((hh @ [hh ! img, ?Z])[r := z])"
    using assms(1) z
    by (simp add: radial_blur_step_def iadd_def alloc_def Let_def astype_float32_def nth_append
             cong: sum.case_cong if_cong)
  then show ?thesis using assms z(2) by (auto simp: nth_append)
qed

lemma radial_loop_ok:
  "r < length hh \<Longrightarrow> img < length hh \<Longrightarrow> img \<noteq> r \<Longrightarrow> shape (hh ! img) = ht # w # rest
   \<Longrightarrow> shape (hh ! r) = ht # w # rest
   \<Longrightarrow> \<exists>hh'. for_each xs (radial_blur_step cv img c w ht r) hh = Inr hh'
          \<and> shape (hh' ! r) = ht # w # rest"
proof (induction xs arbitrary: hh)
  case Nil
  then show ?case by simp
next
  case (Cons i xs)
  from radial_step_ok [OF Cons.prems(1,4,5), of cv c i] obtain h1 where
    h1: "radial_blur_step cv img c w ht r hh i = Inr h1" "length hh \<le> length h1"
        "shape (h1 ! r) = ht # w # rest" "h1 ! img = hh ! img"
    using Cons.prems(2,3) by auto
  have "r < length h1" "img < length h1" using h1(2) Cons.prems by auto
  from Cons.IH [OF this Cons.prems(3) _ h1(3)] h1(4) Cons.prems(4) h1(1)
  show ?case by auto
qed

lemma radial_dims:
  assumes "shape2 (h ! a) = Inr d" "a < length h"
  shows "result_dims (apply_radial_blur_effect cv h a i t) = Some (Inr d)"
proof -
  from assms(1) obtain ht w rest where sh: "shape (h ! a) = ht # w # rest" "d = (ht, w)"
    by (auto simp: shape2_def split: list.splits)
  let ?h1 = "h @ [h ! a]"
  have "length h < length ?h1" "a < length ?h1" "a \<noteq> length h"
       "shape (?h1 ! a) = ht # w # rest" "shape (?h1 ! length h) = ht # w # rest"
    using assms(2) sh by (simp_all add: nth_append)
  from radial_loop_ok [OF this, of "py_range 0 (py_int (1 + 4 * progress_of i t))" cv "(w div 2, ht div 2)"]
  obtain h2 where h2: "for_each (py_range 0 (py_int (1 + 4 * progress_of i t)))
        (radial_blur_step cv a (w div 2, ht div 2) w ht (length h)) ?h1 = Inr h2"
      "shape (h2 ! length h) = ht # w # rest" by auto
  show ?thesis using sh h2 assms(1)
    by (simp add: result_dims_def apply_radial_blur_effect_def alloc_def astype_float32_def
             astype_uint8_def scalar_op_def shape2_def)
qed

subsection \<open>The tilt-shift effect\<close>

lemma mask_rise_ok:
  "py_int (real ht * 0.15) \<noteq> 0 \<Longrightarrow>
   \<exists>m'. for_each xs (mask_rise ht fb) m = Inr m' \<and> length (data m') = length (data m)"
proof (induction xs arbitrary: m)
  case Nil
  then show ?case by simp
next
  case (Cons i xs)
  obtain m1 where m1: "mask_rise ht fb m i = Inr m1" "length (data m1) = length (data m)"
    using Cons.prems by (simp add: mask_rise_def)
  from Cons.IH [OF Cons.prems, of m1] m1 show ?case by auto
qed

lemma mask_fall_ok:
  "py_int (real ht * 0.15) \<noteq> 0 \<Longrightarrow>
   \<exists>m'. for_each xs (mask_fall ht fb) m = Inr m' \<and> length (data m') = length (data m)"
proof (induction xs arbitrary: m)
  case Nil
  then show ?case by simp
next
  case (Cons i xs)
  obtain m1 where m1: "mask_fall ht fb m i = Inr m1" "length (data m1) = length (data m)"
    using Cons.prems by (simp add: mask_fall_def)
  from Cons.IH [OF Cons.prems, of m1] m1 show ?case by auto
qed

lemma divisor_pos: "7 \<le> ht \<Longrightarrow> py_int (real ht * 0.15) \<noteq> 0"
proof -
  assume ht: "7 \<le> ht"
  define x where "x = real ht * 0.15"
  have "1 \<le> x" using ht by (simp add: x_def)
  then have "1 \<le> \<lfloor>x\<rfloor>" by linarith
  moreover have "py_int x = \<lfloor>x\<rfloor>" using \<open>1 \<le> x\<close> by (simp add: py_int_def)
  ultimately show ?thesis unfolding x_def by linarith
qed

lemma divisor_zero: "ht < 7 \<Longrightarrow> py_int (real ht * 0.15) = 0"
proof -
  assume ht: "ht < 7"
  define x where "x = real ht * 0.15"
  have "x < 1" "0 \<le> x" using ht by (simp_all add: x_def)
  then have "\<lfloor>x\<rfloor> = 0" by linarith
  moreover have "py_int x = \<lfloor>x\<rfloor>" using \<open>0 \<le> x\<close> by (simp add: py_int_def)
  ultimately show ?thesis unfolding x_def by linarith
qed

lemma tilt_shift_unfolded:
  assumes "shape (h ! a) = ht # w # rest" "7 \<le> ht"
  shows "\<exists>T B m. shape T = ht # w # rest \<and> shape B = ht # w # rest \<and> shape m = [ht, w]
    \<and> apply_tilt_shift_effect cv h a i t =
        (case elementwise (*) T m of
           Inl e \<Rightarrow> Inl e
         | Inr sharp \<Rightarrow>
             (case elementwise (*) B (scalar_op (\<lambda>v. 1 - v) m) of
                Inl e \<Rightarrow> Inl e
              | Inr soft \<Rightarrow>
                  (case elementwise (+) sharp soft of
                     Inl e \<Rightarrow> Inl e
                   | Inr blended \<Rightarrow> Inr (h @ [T, B, astype_uint8 blended], length h + 2))))"
proof -
  let ?fb = "py_int (real ht * 0.4)"
  let ?M = "getRotationMatrix2D (w div 2, ht div 2) 0 (1.0 + 0.2 * progress_of i t)"
  let ?T = "warpAffine cv (h ! a) ?M (w, ht)"
  let ?B = "GaussianBlur cv ?T (21, 21) 0"
  let ?m1 = "slice_assign (np_zeros [ht, 1]) ?fb (?fb + py_int (real ht * 0.2)) 1.0"
  have d: "py_int (real ht * 0.15) \<noteq> 0" using assms(2) by (rule divisor_pos)
  have l1: "length (data ?m1) = ht" by (simp add: slice_assign_def np_zeros_def Let_def)
  from mask_rise_ok [OF d, of "py_range 0 ?fb" ?fb ?m1] obtain m2 where
    m2: "for_each (py_range 0 ?fb) (mask_rise ht ?fb) ?m1 = Inr m2" "length (data m2) = ht"
    using l1 by auto
  from mask_fall_ok [OF d, of "py_range (?fb + py_int (real ht * 0.2)) (int ht)" ?fb m2] obtain m3 where
    m3: "for_each (py_range (?fb + py_int (real ht * 0.2)) (int ht)) (mask_fall ht ?fb) m2 = Inr m3"
        "length (data m3) = ht"
    using m2(2) by auto
  have sh: "shape2 (h ! a) = Inr (ht, w)" using assms(1) by (simp add: shape2_def)
  have eq: "apply_tilt_shift_effect cv h a i t =
        (case elementwise (*) ?T (tile_cols m3 w) of
           Inl e \<Rightarrow> Inl e
         | Inr sharp \<Rightarrow>
             (case elementwise (*) ?B (scalar_op (\<lambda>v. 1 - v) (tile_cols m3 w)) of
                Inl e \<Rightarrow> Inl e
              | Inr soft \<Rightarrow>
                  (case elementwise (+) sharp soft of
                     Inl e \<Rightarrow> Inl e
                   | Inr blended \<Rightarrow> Inr (h @ [?T, ?B, astype_uint8 blended], length h + 2))))"
    unfolding apply_tilt_shift_effect_def sh using m2(1) m3(1)
    by (simp add: alloc_def Let_def nth_append cong: sum.case_cong)
  have "shape ?T = ht # w # rest" "shape ?B = ht # w # rest" "shape (tile_cols m3 w) = [ht, w]"
    using assms(1) m3(2) by (simp_all add: warpAffine_def GaussianBlur_def tile_cols_def)
  with eq show ?thesis by blast
qed

lemma tilt_shift_colour_raises:
  assumes "shape (h ! a) = [ht, w, 3]" "7 \<le> ht" "w \<noteq> 1" "w \<noteq> 3"
  shows "apply_tilt_shift_effect cv h a i t = Inl ValueError"
proof -
  from tilt_shift_unfolded [OF assms(1,2), of cv i t] obtain T B m where
    s: "shape T = [ht, w, 3]" "shape m = [ht, w]"
    and eq: "apply_tilt_shift_effect cv h a i t =
        (case elementwise (*) T m of
           Inl e \<Rightarrow> Inl e
         | Inr sharp \<Rightarrow>
             (case elementwise (*) B (scalar_op (\<lambda>v. 1 - v) m) of
                Inl e \<Rightarrow> Inl e
              | Inr soft \<Rightarrow>
                  (case elementwise (+) sharp soft of
                     Inl e \<Rightarrow> Inl e
                   | Inr blended \<Rightarrow> Inr (h @ [T, B, astype_uint8 blended], length h + 2))))"
    by blast
  have "elementwise (*) T m = Inl ValueError"
    using s assms(3,4) by (simp add: elementwise_def broadcast_shapes_def)
  with eq show ?thesis by simp
qed

lemma tilt_dims_gray:
  assumes "shape (h ! a) = [ht, w]" "7 \<le> ht"
  shows "result_dims (apply_tilt_shift_effect cv h a i t) = Some (Inr (ht, w))"
proof -
  from tilt_shift_unfolded [OF assms(1,2), of cv i t] obtain T B m where
    s: "shape T = [ht, w]" "shape B = [ht, w]" "shape m = [ht, w]"
    and eq: "apply_tilt_shift_effect cv h a i t =
        (case elementwise (*) T m of
           Inl e \<Rightarrow> Inl e
         | Inr sharp \<Rightarrow>
             (case elementwise (*) B (scalar_op (\<lambda>v. 1 - v) m) of
                Inl e \<Rightarrow> Inl e
              | Inr soft \<Rightarrow>
                  (case elementwise (+) sharp soft of
                     Inl e \<Rightarrow> Inl e
                   | Inr blended \<Rightarrow> Inr (h @ [T, B, astype_uint8 blended], length h + 2))))"
    by blast
  show ?thesis unfolding eq using s
    by (simp add: elementwise_def broadcast_shapes_def scalar_op_def result_dims_def
             astype_uint8_def shape2_def nth_append)
qed

section \<open>Properties of the frame synthesis\<close>

lemma motion_function_cases:
  assumes "map_of motion_functions mt = Some (Some f)"
  shows "f \<in> {apply_subtle_motion, apply_ken_burns_effect, apply_360_pan_effect,
              apply_tilt_shift_effect, apply_zoom_in_effect, apply_zoom_out_effect,
              apply_dolly_zoom_effect, apply_wave_effect, apply_radial_blur_effect,
              apply_rotation_effect, apply_flip_effect}"
proof -
  have "Some f \<in> snd ` set motion_functions"
    using map_of_SomeD [OF assms] by force
  then show ?thesis unfolding motion_functions_def by auto
qed

lemma effect_extends:
  assumes "map_of motion_functions mt = Some (Some f)"
  shows "extends h (f cv h a i t)"
  using motion_function_cases [OF assms]
  by (auto simp: subtle_extends ken_burns_extends pan_extends tilt_shift_extends zoom_in_extends
      zoom_out_extends dolly_zoom_extends wave_extends radial_blur_extends rotation_extends
      flip_extends)

lemma effect_same:
  assumes "map_of motion_functions mt = Some (Some f)" "h ! a = k ! b" "a < length h" "b < length k"
  shows "same_frame (f cv h a i t) (f cv k b i t)"
  using motion_function_cases [OF assms(1)] assms(2-4)
  by (auto simp: subtle_same ken_burns_same pan_same tilt_shift_same zoom_in_same
      zoom_out_same dolly_zoom_same wave_same radial_blur_same rotation_same flip_same)

lemma ensure_bgr_store:
  "ensure_bgr h m = Inr (h', m') \<Longrightarrow> m < length h
   \<Longrightarrow> take (length h) h' = h \<and> m' < length h'"
  by (auto simp: ensure_bgr_def alloc_def split: if_splits)

lemma ensure_bgr_same:
  "h ! m = k ! n \<Longrightarrow>
   (case ensure_bgr h m of
      Inl e \<Rightarrow> ensure_bgr k n = Inl e
    | Inr (h', m') \<Rightarrow> (\<exists>k' n'. ensure_bgr k n = Inr (k', n') \<and> h' ! m' = k' ! n'))"
  by (auto simp: ensure_bgr_def alloc_def split: if_splits)

lemma take_prefix_trans:
  "take (length h) h1 = h \<Longrightarrow> take (length h1) h2 = h1 \<Longrightarrow> take (length h) h2 = h"
  by (metis append_eq_conv_conj append_take_drop_id append.assoc)

lemma synthesize_frame_extends: "extends h (synthesize_frame cv plan T h img i)"
proof (cases "synthesize_frame cv plan T h img i")
  case (Inl e)
  then show ?thesis by (simp add: extends_def)
next
  case (Inr res)
  obtain h' out where res: "res = (h', out)" by (cases res)
  let ?h1 = "h @ [h ! img]"
  let ?n = "length plan"
  from Inr res obtain mt h2 moved h3 bgr where
    mt: "py_index plan (current_segment T ?n i) = Inr mt"
    and eff: "(case map_of motion_functions mt of
               Some (Some motion_func) \<Rightarrow>
                 motion_func cv ?h1 (length h) (frame_in_segment T ?n i) (frames_in_segment T ?n i)
             | _ \<Rightarrow> Inr (?h1, length h)) = Inr (h2, moved)"
    and bgr: "ensure_bgr h2 moved = Inr (h3, bgr)"
    and out: "h' = h3 @ [astype_uint8 (h3 ! bgr)]" "out = length h3"
    by (auto simp: synthesize_frame_def alloc_def Let_def split: if_splits sum.splits)
  have h2: "take (length ?h1) h2 = ?h1 \<and> moved < length h2"
  proof (cases "map_of motion_functions mt")
    case None
    then show ?thesis using eff by auto
  next
    case (Some fo)
    show ?thesis
    proof (cases fo)
      case None
      then show ?thesis using eff Some by auto
    next
      case (Some f)
      with \<open>map_of motion_functions mt = Some fo\<close>
      have m: "map_of motion_functions mt = Some (Some f)" by simp
      from effect_extends [OF m, of ?h1 cv "length h" "frame_in_segment T ?n i"
          "frames_in_segment T ?n i"] eff m
      show ?thesis by (auto simp: extends_def)
    qed
  qed
  from ensure_bgr_store [OF bgr] h2 have h3: "take (length h2) h3 = h2" "bgr < length h3" by simp_all
  have "take (length h) ?h1 = h" by simp
  with h2 have "take (length h) h2 = h" by (metis take_prefix_trans)
  with h3(1) have p: "take (length h) h3 = h" by (metis take_prefix_trans)
  then have "length h \<le> length h3" by (metis length_take min.cobounded2 min_def nat_le_linear)
  with p show ?thesis using Inr res out by (simp add: extends_def)
qed

lemma synthesize_frame_same:
  assumes "h ! a = k ! b" "a < length h" "b < length k"
  shows "same_frame (synthesize_frame cv plan T h a i) (synthesize_frame cv plan T k b i)"
proof -
  let ?n = "length plan"
  let ?h1 = "h @ [h ! a]"
  let ?k1 = "k @ [k ! b]"
  let ?E = "\<lambda>mt hh x. (case map_of motion_functions mt of
               Some (Some motion_func) \<Rightarrow>
                 motion_func cv hh x (frame_in_segment T ?n i) (frames_in_segment T ?n i)
             | _ \<Rightarrow> Inr (hh, x))"
  have eff: "same_frame (?E mt ?h1 (length h)) (?E mt ?k1 (length k))" for mt
  proof (cases "map_of motion_functions mt")
    case None
    then show ?thesis using assms(1) by (simp add: same_frame_def)
  next
    case (Some fo)
    show ?thesis
    proof (cases fo)
      case None
      then show ?thesis using Some assms(1) by (simp add: same_frame_def)
    next
      case (Some f)
      with \<open>map_of motion_functions mt = Some fo\<close>
      have m: "map_of motion_functions mt = Some (Some f)" by simp
      have "?h1 ! length h = ?k1 ! length k" using assms(1) by simp
      from effect_same [OF m this, of cv] m show ?thesis by simp
    qed
  qed
  have post: "same_frame
      (case r1 of Inl e \<Rightarrow> Inl e
       | Inr (h2, moved) \<Rightarrow> (case ensure_bgr h2 moved of Inl e \<Rightarrow> Inl e
            | Inr (h3, bgr) \<Rightarrow> Inr (alloc h3 (astype_uint8 (h3 ! bgr)))))
      (case r2 of Inl e \<Rightarrow> Inl e
       | Inr (h2, moved) \<Rightarrow> (case ensure_bgr h2 moved of Inl e \<Rightarrow> Inl e
            | Inr (h3, bgr) \<Rightarrow> Inr (alloc h3 (astype_uint8 (h3 ! bgr)))))"
    if "same_frame r1 r2" for r1 r2
  proof (cases r1)
    case (Inl e)
    then show ?thesis using that by (auto simp: same_frame_def split: sum.splits)
  next
    case (Inr p1)
    obtain h2 m where p1: "p1 = (h2, m)" by (cases p1)
    from that Inr p1 obtain k2 n where r2: "r2 = Inr (k2, n)" "h2 ! m = k2 ! n"
      by (auto simp: same_frame_def split: sum.splits)
    from ensure_bgr_same [OF r2(2)] show ?thesis using Inr p1 r2(1)
      by (auto simp: same_frame_def alloc_def split: sum.splits)
  qed
  show ?thesis
  proof (cases "?n = 0 \<or> segment_duration T ?n = 0")
    case True
    then show ?thesis by (auto simp: synthesize_frame_def alloc_def same_frame_def)
  next
    case False
    show ?thesis
    proof (cases "py_index plan (current_segment T ?n i)")
      case (Inl e)
      then show ?thesis using False by (simp add: synthesize_frame_def alloc_def same_frame_def)
    next
      case (Inr mt)
      from post [OF eff [of mt]] show ?thesis using False Inr
        by (simp add: synthesize_frame_def alloc_def Let_def)
    qed
  qed
qed

section \<open>Properties of the loops\<close>

lemma write_frame_step:
  assumes "write_frame cv ev plan T path img s k = Inr s1" "img < length (heap s)"
  shows "\<exists>f. frame_alone cv plan T (heap s ! img) k = Some f
           \<and> write_raises ev path k = None
           \<and> writes s1 = writes s @ [(path, f)]
           \<and> take (length (heap s)) (heap s1) = heap s
           \<and> opened s1 = opened s \<and> calls s1 = calls s
           \<and> created_videos s1 = created_videos s"
proof -
  from assms(1) obtain h' out where
    syn: "synthesize_frame cv plan T (heap s) img k = Inr (h', out)"
    and wr: "write_raises ev path k = None"
    and s1: "s1 = s\<lparr>heap := h', writes := writes s @ [(path, h' ! out)],
                     encoded := encoded s @
                       (if isOpened ev path \<and> frame_encoded ev path k
                        then [(path, h' ! out)] else [])\<rparr>"
    by (auto simp: write_frame_def split: sum.splits option.splits)
  from synthesize_frame_extends [of "heap s" cv plan T img k] syn
  have ext: "take (length (heap s)) h' = heap s" by (simp add: extends_def)
  have "[heap s ! img] ! 0 = heap s ! img" by simp
  from synthesize_frame_same [OF this _ assms(2), of cv plan T k] syn
  have "frame_alone cv plan T (heap s ! img) k = Some (h' ! out)"
    by (auto simp: same_frame_def frame_alone_def split: sum.splits)
  then show ?thesis using wr s1 ext by simp
qed

lemma frame_loop:
  "for_each ks (write_frame cv ev plan T path img) s = Inr s' \<Longrightarrow> img < length (heap s)
   \<Longrightarrow> \<exists>fs. writes s' = writes s @ map (Pair path) fs
          \<and> map Some fs = map (frame_alone cv plan T (heap s ! img)) ks
          \<and> list_all (\<lambda>k. write_raises ev path k = None) ks
          \<and> take (length (heap s)) (heap s') = heap s
          \<and> opened s' = opened s \<and> calls s' = calls s
          \<and> created_videos s' = created_videos s"
proof (induction ks arbitrary: s)
  case Nil
  then show ?case by simp
next
  case (Cons k ks)
  from Cons.prems(1) obtain s1 where
    step: "write_frame cv ev plan T path img s k = Inr s1"
    and rest: "for_each ks (write_frame cv ev plan T path img) s1 = Inr s'"
    by (auto split: sum.splits)
  from write_frame_step [OF step Cons.prems(2)] obtain f where
    f: "frame_alone cv plan T (heap s ! img) k = Some f"
       "write_raises ev path k = None"
       "writes s1 = writes s @ [(path, f)]"
       "take (length (heap s)) (heap s1) = heap s"
       "opened s1 = opened s" "calls s1 = calls s" "created_videos s1 = created_videos s"
    by blast
  have len: "length (heap s) \<le> length (heap s1)"
    using f(4) by (metis length_take min.cobounded2 min_def nat_le_linear)
  then have img1: "img < length (heap s1)" using Cons.prems(2) by simp
  have same: "heap s1 ! img = heap s ! img"
    using f(4) Cons.prems(2) by (metis nth_take)
  from Cons.IH [OF rest img1] obtain fs where
    fs: "writes s' = writes s1 @ map (Pair path) fs"
        "map Some fs = map (frame_alone cv plan T (heap s1 ! img)) ks"
        "list_all (\<lambda>k. write_raises ev path k = None) ks"
        "take (length (heap s1)) (heap s') = heap s1"
        "opened s' = opened s1" "calls s' = calls s1" "created_videos s' = created_videos s1"
    by blast
  have pre: "take (length (heap s)) (heap s') = heap s"
    using f(4) fs(4) by (metis take_prefix_trans)
  show ?case
    apply (rule exI [of _ "f # fs"])
    using f fs same pre by simp
qed

lemma tagged_append: "tagged (xs @ ys) = tagged xs @ tagged ys"
  by (simp add: tagged_def)

lemma tagged_frames:
  "map Some fs = map F ks \<Longrightarrow> tagged (map (Pair p) fs) = map (\<lambda>k. (p, F k)) ks"
proof -
  assume a: "map Some fs = map F ks"
  have "tagged (map (Pair p) fs) = map (Pair p) (map Some fs)"
    by (simp add: tagged_def)
  also have "\<dots> = map (Pair p) (map F ks)" using a by simp
  finally show ?thesis by simp
qed

lemma convert_image_skip:
  "load_image ev p = None \<Longrightarrow> convert_image cv ev a plan q tsize T n s (i, p) = Inr s"
  by (simp add: convert_image_def)

lemma convert_image_step:
  assumes "convert_image cv ev a plan q tsize T n s (i, p) = Inr s1"
      and "load_image ev p = Some decoded"
  shows "encoder_ok ev a plan q T p
       \<and> tagged (writes s1) = tagged (writes s) @ expected_frames cv ev a plan q tsize T p
       \<and> calls s1 = calls s @ (if progress_callback a then [(int i + 1, int n)] else [])
       \<and> length (created_videos s1) = Suc (length (created_videos s))
       \<and> opened s1 = opened s @ [output_path_of ev (output_dir a) plan q p]"
proof -
  let ?path = "output_path_of ev (output_dir a) plan q p"
  let ?s0 = "s\<lparr>heap := heap s @ [resize cv decoded tsize], opened := opened s @ [?path]\<rparr>"
  from assms obtain s2 sz where
    op: "VideoWriter_raises ev ?path = None"
    and loop: "for_each (py_range 0 T) (write_frame cv ev plan T ?path (length (heap s))) ?s0 = Inr s2"
    and sz: "getsize ev ?path = Inr sz"
    and s1: "calls s1 = calls s2 @ (if progress_callback a then [(int i + 1, int n)] else [])"
            "length (created_videos s1) = Suc (length (created_videos s2))"
            "writes s1 = writes s2" "opened s1 = opened s2"
    by (auto simp: convert_image_def alloc_def Let_def split: option.splits sum.splits)
  have "length (heap s) < length (heap ?s0)" by simp
  from frame_loop [OF loop this] obtain fs where
    fs: "writes s2 = writes ?s0 @ map (Pair ?path) fs"
        "map Some fs = map (frame_alone cv plan T (heap ?s0 ! length (heap s))) (py_range 0 T)"
        "list_all (\<lambda>k. write_raises ev ?path k = None) (py_range 0 T)"
        "opened s2 = opened ?s0" "calls s2 = calls ?s0" "created_videos s2 = created_videos ?s0"
    by blast
  have src: "heap ?s0 ! length (heap s) = resize cv decoded tsize" by simp
  have "tagged (writes s2) = tagged (writes s) @ expected_frames cv ev a plan q tsize T p"
    using fs(1) tagged_frames [OF fs(2)] assms(2)
    by (simp add: tagged_append expected_frames_def src)
  then show ?thesis using op fs(3-6) sz s1 by (simp add: encoder_ok_def)
qed

lemma image_loop:
  "for_each items (convert_image cv ev a plan q tsize T n) s = Inr s'
   \<Longrightarrow> list_all (\<lambda>(i, p). load_image ev p = None \<or> encoder_ok ev a plan q T p) items
     \<and> tagged (writes s') =
         tagged (writes s) @ concat (map (\<lambda>(i, p). expected_frames cv ev a plan q tsize T p) items)
     \<and> calls s' =
         calls s @ (if progress_callback a
                    then map (\<lambda>(i, p). (int i + 1, int n))
                           (filter (\<lambda>(i, p). load_image ev p \<noteq> None) items)
                    else [])
     \<and> length (created_videos s') =
         length (created_videos s) + length (filter (\<lambda>(i, p). load_image ev p \<noteq> None) items)"
proof (induction items arbitrary: s)
  case Nil
  then show ?case by simp
next
  case (Cons ip items)
  obtain i p where ip: "ip = (i, p)" by (cases ip)
  from Cons.prems ip obtain s1 where
    step: "convert_image cv ev a plan q tsize T n s (i, p) = Inr s1"
    and rest: "for_each items (convert_image cv ev a plan q tsize T n) s1 = Inr s'"
    by (auto split: sum.splits)
  note IH = Cons.IH [OF rest]
  show ?case
  proof (cases "load_image ev p")
    case None
    then have "s1 = s" using step by (simp add: convert_image_skip)
    then show ?thesis using IH None ip by (simp add: expected_frames_def)
  next
    case (Some decoded)
    from convert_image_step [OF step Some] IH Some ip
    show ?thesis by simp
  qed
qed

section \<open>Frames of the plan none\<close>

lemma py_range_mem: "k \<in> set (py_range 0 T) \<longleftrightarrow> 0 \<le> k \<and> k < T"
  by (auto simp: py_range_def)


lemma single_segment:
  assumes "0 \<le> k" "k < T"
  shows "current_segment T (Suc 0) k = 0"
proof -
  have T: "0 < real_of_int T" using assms by simp
  have "0 \<le> real_of_int k / real_of_int T" using assms by simp
  moreover have "real_of_int k / real_of_int T < 1" using assms T by simp
  ultimately have "\<lfloor>real_of_int k / real_of_int T\<rfloor> = 0" by linarith
  moreover have "py_int (real_of_int k / real_of_int T) = \<lfloor>real_of_int k / real_of_int T\<rfloor>"
    using \<open>0 \<le> real_of_int k / real_of_int T\<close> by (simp add: py_int_def)
  ultimately show ?thesis by (simp add: current_segment_def segment_duration_def)
qed

lemma motion_functions_none: "map_of motion_functions ''none'' = Some None"
  by (simp add: motion_functions_def)

lemma frame_alone_none:
  assumes "0 \<le> k" "k < T"
  shows "frame_alone cv [''none''] T src k =
     (if length (shape src) = 2 then Some (astype_uint8 (cvtColor_GRAY2BGR src))
      else if length (shape src) < 3 then None
      else if shape src ! 2 = 4 then Some (astype_uint8 (cvtColor_BGRA2BGR src))
      else Some (astype_uint8 src))"
proof -
  have T: "segment_duration T (Suc 0) \<noteq> 0" using assms by (simp add: segment_duration_def)
  have idx: "py_index [''none''] (current_segment T (Suc 0) k) = Inr ''none''"
    using single_segment [OF assms] by (simp add: py_index_def)
  show ?thesis
    using T idx
    by (simp add: frame_alone_def synthesize_frame_def alloc_def motion_functions_none
             ensure_bgr_def nth_append)
qed

lemma astype_uint8_id:
  assumes "list_all is_uint8 (data a)"
  shows "astype_uint8 a = a"
proof -
  have "real_of_int (py_int v mod 256) = v" if "is_uint8 v" for v
  proof -
    from that have v: "0 \<le> v" "v < 256" "real_of_int \<lfloor>v\<rfloor> = v" by (simp_all add: is_uint8_def)
    have "0 \<le> \<lfloor>v\<rfloor>" "\<lfloor>v\<rfloor> < 256" using v(1,2) by linarith+
    then have "\<lfloor>v\<rfloor> mod 256 = \<lfloor>v\<rfloor>" by simp
    moreover have "py_int v = \<lfloor>v\<rfloor>" using v(1) by (simp add: py_int_def)
    ultimately show ?thesis using v(3) by simp
  qed
  then have "map (\<lambda>v. real_of_int (py_int v mod 256)) (data a) = data a"
    using assms by (simp add: list_all_iff map_idI)
  then show ?thesis by (simp add: astype_uint8_def)
qed

lemma frame_alone_none_bgr8:
  assumes "0 \<le> k" "k < T" "is_bgr8 src"
  shows "frame_alone cv [''none''] T src k = Some src"
  using assms(3) frame_alone_none [OF assms(1,2), of cv src]
  by (simp add: is_bgr8_def astype_uint8_id)

section \<open>When the loops return\<close>

lemma write_frame_ok:
  assumes "img < length (heap s)" "frame_alone cv plan T (heap s ! img) k \<noteq> None"
          "write_raises ev path k = None"
  shows "\<exists>s1. write_frame cv ev plan T path img s k = Inr s1"
proof (cases "synthesize_frame cv plan T (heap s) img k")
  case (Inl e)
  have "[heap s ! img] ! 0 = heap s ! img" by simp
  from synthesize_frame_same [OF this _ assms(1), of cv plan T k] Inl
  have "synthesize_frame cv plan T [heap s ! img] 0 k = Inl e"
    by (cases "synthesize_frame cv plan T [heap s ! img] 0 k") (simp_all add: same_frame_def)
  with assms(2) show ?thesis by (simp add: frame_alone_def)
next
  case (Inr res)
  then show ?thesis using assms(3) by (cases res) (simp add: write_frame_def)
qed

lemma frame_loop_ok:
  "img < length (heap s)
   \<Longrightarrow> list_all (\<lambda>k. frame_alone cv plan T (heap s ! img) k \<noteq> None
                       \<and> write_raises ev path k = None) ks
   \<Longrightarrow> \<exists>s'. for_each ks (write_frame cv ev plan T path img) s = Inr s'"
proof (induction ks arbitrary: s)
  case Nil
  then show ?case by simp
next
  case (Cons k ks)
  from Cons.prems have k: "frame_alone cv plan T (heap s ! img) k \<noteq> None"
    "write_raises ev path k = None" by simp_all
  from write_frame_ok [OF Cons.prems(1) k] obtain s1 where
    s1: "write_frame cv ev plan T path img s k = Inr s1" by blast
  from write_frame_step [OF s1 Cons.prems(1)] have pre: "take (length (heap s)) (heap s1) = heap s"
    by blast
  then have "length (heap s) \<le> length (heap s1)"
    by (metis length_take min.cobounded2 min_def nat_le_linear)
  then have img1: "img < length (heap s1)" using Cons.prems(1) by simp
  have "heap s1 ! img = heap s ! img" using pre Cons.prems(1) by (metis nth_take)
  with Cons.prems(2) have "list_all (\<lambda>k. frame_alone cv plan T (heap s1 ! img) k \<noteq> None
                       \<and> write_raises ev path k = None) ks" by simp
  from Cons.IH [OF img1 this] s1 show ?case by simp
qed

lemma convert_image_ok:
  assumes "load_image ev p = None \<or> encoder_ok ev a plan q T p" "frames_ok cv ev plan tsize T p"
  shows "\<exists>s1. convert_image cv ev a plan q tsize T n s (i, p) = Inr s1"
proof (cases "load_image ev p")
  case None
  then show ?thesis by (simp add: convert_image_skip)
next
  case (Some decoded)
  let ?path = "output_path_of ev (output_dir a) plan q p"
  let ?s0 = "s\<lparr>heap := heap s @ [resize cv decoded tsize], opened := opened s @ [?path]\<rparr>"
  from assms(1) Some have ok: "VideoWriter_raises ev ?path = None"
    "list_all (\<lambda>k. write_raises ev ?path k = None) (py_range 0 T)"
    "\<not> isl (getsize ev ?path)"
    by (simp_all add: encoder_ok_def)
  have img: "length (heap s) < length (heap ?s0)" by simp
  have "list_all (\<lambda>k. frame_alone cv plan T (heap ?s0 ! length (heap s)) k \<noteq> None
                       \<and> write_raises ev ?path k = None) (py_range 0 T)"
    using assms(2) Some ok(2) by (simp add: frames_ok_def list_all_iff)
  from frame_loop_ok [OF img this] obtain s2 where
    "for_each (py_range 0 T) (write_frame cv ev plan T ?path (length (heap s))) ?s0 = Inr s2"
    by blast
  moreover from ok(3) obtain sz where "getsize ev ?path = Inr sz"
    by (cases "getsize ev ?path") simp_all
  ultimately show ?thesis using Some ok(1)
    by (simp add: convert_image_def alloc_def Let_def)
qed

lemma image_loop_ok:
  "list_all (\<lambda>(i, p). (load_image ev p = None \<or> encoder_ok ev a plan q T p)
                      \<and> frames_ok cv ev plan tsize T p) items
   \<Longrightarrow> \<exists>s'. for_each items (convert_image cv ev a plan q tsize T n) s = Inr s'"
proof (induction items arbitrary: s)
  case Nil
  then show ?case by simp
next
  case (Cons ip items)
  obtain i p where ip: "ip = (i, p)" by (cases ip)
  from Cons.prems ip have
    "load_image ev p = None \<or> encoder_ok ev a plan q T p" "frames_ok cv ev plan tsize T p"
    by simp_all
  from convert_image_ok [OF this, of n s i] obtain s1 where
    "convert_image cv ev a plan q tsize T n s (i, p) = Inr s1" by blast
  moreover from Cons.prems have "list_all (\<lambda>(i, p). (load_image ev p = None \<or> encoder_ok ev a plan q T p)
                      \<and> frames_ok cv ev plan tsize T p) items" by simp
  from Cons.IH [OF this, of s1] obtain s' where
    "for_each items (convert_image cv ev a plan q tsize T n) s1 = Inr s'" by blast
  ultimately show ?case using ip by simp
qed

section \<open>Properties of a run\<close>

lemma enumerate_snd: "map snd (enumerate_from0 xs) = xs"
  by (simp add: enumerate_from0_def)

lemma enumerate_fst: "map fst (enumerate_from0 xs) = [0..<length xs]"
  by (simp add: enumerate_from0_def)

lemma list_all_enumerate:
  "list_all (\<lambda>(i, p). P p) (enumerate_from0 xs) = list_all P xs"
proof -
  have "list_all (\<lambda>(i, p). P p) (enumerate_from0 xs) = list_all P (map snd (enumerate_from0 xs))"
    by (simp add: list_all_iff case_prod_beta)
  then show ?thesis by (simp add: enumerate_snd)
qed

lemma concat_map_enumerate:
  "concat (map (\<lambda>(i, p). F p) (enumerate_from0 xs)) = concat (map F xs)"
proof -
  have "map (\<lambda>(i, p). F p) (enumerate_from0 xs) = map F (map snd (enumerate_from0 xs))"
    by (simp add: case_prod_beta)
  then show ?thesis by (simp add: enumerate_snd)
qed

lemma filter_snd_length:
  "length (filter (\<lambda>(i, p). P p) ys) = length (filter P (map snd ys))"
  by (induction ys) auto

lemma filter_enumerate_length:
  "length (filter (\<lambda>(i, p). P p) (enumerate_from0 xs)) = length (filter P xs)"
  by (simp add: filter_snd_length enumerate_snd)

lemma effective_quality_cases:
  "effective_quality q \<in> {''4K'', ''1080p'', ''720p'', ''480p'', ''360p''}"
  by (simp add: effective_quality_def QUALITY_PRESETS_def)

lemma target_size_total: "\<exists>tsize. target_size q = Inr tsize"
  using effective_quality_cases [of q]
  by (auto simp: target_size_def QUALITY_PRESETS_def)

lemma run_unfolded:
  assumes "target_size (quality a) = Inr tsize"
  shows "create_video_per_image_with_motion cv ev a =
     (if collect_images ev (input_dir a) = [] then Inr (EmptyList, init_state)
      else case for_each (enumerate_from0 (collect_images ev (input_dir a)))
                  (convert_image cv ev a (motion_plan (motion_types a))
                     (effective_quality (quality a)) tsize (total_frames_of a)
                     (length (collect_images ev (input_dir a))))
                  init_state of
             Inl e \<Rightarrow> Inl e
           | Inr s \<Rightarrow>
               Inr (Result (created_videos s)
                      \<lparr>videos_created = length (created_videos s),
                       m_quality = effective_quality (quality a),
                       m_motion_effects = motion_plan (motion_types a)\<rparr>,
                    s))"
  using assms
  by (auto simp: create_video_per_image_with_motion_def target_size_def Let_def total_frames_of_def
           split: option.splits)

lemma run_empty:
  "collect_images ev (input_dir a) = []
   \<Longrightarrow> create_video_per_image_with_motion cv ev a = Inr (EmptyList, init_state)"
  using target_size_total [of "quality a"] by (auto simp: run_unfolded)

lemma run_normal:
  assumes run: "create_video_per_image_with_motion cv ev a = Inr (r, s)"
      and ne: "collect_images ev (input_dir a) \<noteq> []"
      and ts: "target_size (quality a) = Inr tsize"
  shows "r = Result (created_videos s)
               \<lparr>videos_created = length (created_videos s),
                m_quality = effective_quality (quality a),
                m_motion_effects = motion_plan (motion_types a)\<rparr>"
    and "list_all (\<lambda>p. load_image ev p = None
                       \<or> encoder_ok ev a (motion_plan (motion_types a))
                            (effective_quality (quality a)) (total_frames_of a) p)
           (collect_images ev (input_dir a))"
    and "tagged (writes s) =
           concat (map (expected_frames cv ev a (motion_plan (motion_types a))
                          (effective_quality (quality a)) tsize (total_frames_of a))
                       (collect_images ev (input_dir a)))"
    and "calls s =
           (if progress_callback a
            then map (\<lambda>(i, p). (int i + 1, int (length (collect_images ev (input_dir a)))))
                   (filter (\<lambda>(i, p). load_image ev p \<noteq> None)
                           (enumerate_from0 (collect_images ev (input_dir a))))
            else [])"
    and "length (created_videos s) =
           length (filter (\<lambda>p. load_image ev p \<noteq> None) (collect_images ev (input_dir a)))"
proof -
  let ?images = "collect_images ev (input_dir a)"
  let ?plan = "motion_plan (motion_types a)"
  let ?q = "effective_quality (quality a)"
  let ?T = "total_frames_of a"
  from run ne have loop: "for_each (enumerate_from0 ?images)
       (convert_image cv ev a ?plan ?q tsize ?T (length ?images)) init_state = Inr s"
    and r: "r = Result (created_videos s)
               \<lparr>videos_created = length (created_videos s), m_quality = ?q,
                m_motion_effects = ?plan\<rparr>"
    unfolding run_unfolded [OF ts] by (auto split: sum.splits)
  note L = image_loop [OF loop]
  show "r = Result (created_videos s)
               \<lparr>videos_created = length (created_videos s), m_quality = ?q,
                m_motion_effects = ?plan\<rparr>" by (rule r)
  show "list_all (\<lambda>p. load_image ev p = None \<or> encoder_ok ev a ?plan ?q ?T p) ?images"
    using L by (simp add: list_all_enumerate)
  show "tagged (writes s) = concat (map (expected_frames cv ev a ?plan ?q tsize ?T) ?images)"
    using L by (simp add: concat_map_enumerate init_state_def tagged_def)
  show "calls s =
           (if progress_callback a
            then map (\<lambda>(i, p). (int i + 1, int (length ?images)))
                   (filter (\<lambda>(i, p). load_image ev p \<noteq> None) (enumerate_from0 ?images))
            else [])"
    using L by (simp add: init_state_def)
  show "length (created_videos s) = length (filter (\<lambda>p. load_image ev p \<noteq> None) ?images)"
    using L by (simp add: init_state_def filter_enumerate_length)
qed

lemma run_ok:
  assumes ts: "target_size (quality a) = Inr tsize"
      and ok: "list_all (\<lambda>p. (load_image ev p = None
                       \<or> encoder_ok ev a (motion_plan (motion_types a))
                            (effective_quality (quality a)) (total_frames_of a) p)
                     \<and> frames_ok cv ev (motion_plan (motion_types a)) tsize (total_frames_of a) p)
           (collect_images ev (input_dir a))"
  shows "\<not> isl (create_video_per_image_with_motion cv ev a)"
proof -
  let ?images = "collect_images ev (input_dir a)"
  have "list_all (\<lambda>(i, p). (load_image ev p = None
                       \<or> encoder_ok ev a (motion_plan (motion_types a))
                            (effective_quality (quality a)) (total_frames_of a) p)
                     \<and> frames_ok cv ev (motion_plan (motion_types a)) tsize (total_frames_of a) p)
           (enumerate_from0 ?images)"
    using ok by (simp add: list_all_enumerate)
  from image_loop_ok [OF this, of "length ?images" init_state] obtain s' where
    "for_each (enumerate_from0 ?images)
       (convert_image cv ev a (motion_plan (motion_types a)) (effective_quality (quality a))
          tsize (total_frames_of a) (length ?images)) init_state = Inr s'" by blast
  then show ?thesis unfolding run_unfolded [OF ts] by simp
qed

lemma run_raises:
  assumes ts: "target_size (quality a) = Inr tsize"
      and p: "p \<in> set (collect_images ev (input_dir a))" "load_image ev p \<noteq> None"
      and bad: "\<not> encoder_ok ev a (motion_plan (motion_types a))
                   (effective_quality (quality a)) (total_frames_of a) p"
  shows "isl (create_video_per_image_with_motion cv ev a)"
proof (rule ccontr)
  assume "\<not> isl (create_video_per_image_with_motion cv ev a)"
  then obtain r s where run: "create_video_per_image_with_motion cv ev a = Inr (r, s)"
    by (cases "create_video_per_image_with_motion cv ev a") auto
  from p(1) have ne: "collect_images ev (input_dir a) \<noteq> []" by auto
  from run_normal(2) [OF run ne ts] p bad show False by (auto simp: list_all_iff)
qed

section \<open>Runs in the small world\<close>

lemma demo_images: "collect_images (demo_env d o_r) ''Input'' = [''Input/a.png'', ''Input/b.png'']"
  by (simp add: collect_images_def demo_env_def image_patterns_def)

lemma demo_no_images: "collect_images (demo_env d o_r) ''Nowhere'' = []"
  by (simp add: collect_images_def demo_env_def)

lemma demo_total_frames: "total_frames_of (demo_args dir) = 2"
  by (simp add: total_frames_of_def demo_args_def py_int_def)

lemma demo_plan: "motion_plan (motion_types (demo_args dir)) = [''none'']"
  by (simp add: demo_args_def motion_plan_def motion_keys)

lemma demo_target: "target_size (quality (demo_args dir)) = Inr (640, 360)"
  by (simp add: demo_args_def target_size_def effective_quality_def QUALITY_PRESETS_def)

lemma demo_quality: "effective_quality (quality (demo_args dir)) = ''360p''"
  by (simp add: demo_args_def effective_quality_def QUALITY_PRESETS_def)

lemma demo_load: "length (shape img) \<noteq> 3 \<or> shape img ! 2 \<noteq> 4 \<Longrightarrow> d p = Some img \<Longrightarrow> load_image (demo_env d o_r) p = Some img"
  by (auto simp: load_image_def read_image_with_fallback_def demo_env_def)

lemma demo_load_none: "d p = None \<Longrightarrow> load_image (demo_env d o_r) p = None"
  by (simp add: load_image_def read_image_with_fallback_def demo_env_def)

lemma demo_path_a: "output_path_of (demo_env d o_r) ''Output'' [''none''] ''360p'' ''Input/a.png'' = ''Output/a_motion_none_360p.avi''"
  by (simp add: output_path_of_def demo_env_def)

lemma py_range_2: "py_range 0 2 = [0, 1]"
  by (simp add: py_range_def upto.simps)

lemma demo_frames_ok_none:
  "frames_ok cv (demo_env d o_r) [''none''] tsize 2 p"
  if "\<forall>img. d p = Some img \<longrightarrow> length (shape img) = 3 \<and> shape img ! 2 = 3"
proof (cases "d p")
  case None
  then show ?thesis by (simp add: frames_ok_def demo_load_none)
next
  case (Some img)
  with that have sh: "length (shape img) = 3" "shape img ! 2 = 3" by simp_all
  then have "load_image (demo_env d o_r) p = Some img" using Some by (simp add: demo_load)
  moreover have "length (shape (resize cv img tsize)) = 3" "shape (resize cv img tsize) ! 2 = 3"
    using sh by (cases "shape img"; cases "tl (shape img)"; cases "tl (tl (shape img))";
                 simp add: resize_def)+
  ultimately show ?thesis
    by (simp add: frames_ok_def py_range_2 frame_alone_none)
qed

section \<open>The quality preset\<close>




section \<open>The empty input\<close>

text \<open>
  C3. When no image is found the function returns the bare empty list of line 311,
  with no metadata: a value of another shape than the pair of line 432. The callers
  unpack two values, which raises ValueError on the empty list, and \<open>batch_worker\<close>
  ends the job with the status \<open>'error'\<close>.
\<close>

theorem empty_input_returns_bare_list:
  "create_video_per_image_with_motion demo_cv (demo_env broken_then_colour never_raises)
       (demo_args ''Nowhere'') = Inr (EmptyList, init_state)
   \<and> unpack_pair EmptyList = Inl ValueError
   \<and> job_status (batch_worker demo_cv (demo_env broken_then_colour never_raises)
                   (demo_args ''Nowhere'')) = ''error''"
proof -
  have "collect_images (demo_env broken_then_colour never_raises) (input_dir (demo_args ''Nowhere'')) = []"
    by (simp add: demo_args_def demo_no_images)
  from run_empty [OF this, of demo_cv] show ?thesis
    by (simp add: unpack_pair_def batch_worker_def)
qed

section \<open>The tilt-shift effect on a colour frame\<close>

lemma motion_functions_tilt_shift:
  "map_of motion_functions ''tilt-shift'' = Some (Some apply_tilt_shift_effect)"
  by (simp add: motion_functions_def)

text \<open>
  C6. On a BGR frame of the 360p preset (shape \<open>(360, 640, 3)\<close>) the tilt-shift effect
  raises ValueError: the mask has shape \<open>(360, 640)\<close>, which does not broadcast against
  \<open>(360, 640, 3)\<close>. No frame is returned, and the frame of a plan \<open>['tilt-shift']\<close>
  cannot be synthesised.
\<close>

theorem tilt_shift_raises_on_colour_frame:
  "apply_tilt_shift_effect cv [\<lparr>shape = [360, 640, 3], data = px\<rparr>] 0 0 1 = Inl ValueError
   \<and> frame_alone cv [''tilt-shift''] 20 \<lparr>shape = [360, 640, 3], data = px\<rparr> 0 = None"
proof -
  let ?src = "\<lparr>shape = [360, 640, 3], data = px\<rparr>"
  have direct: "apply_tilt_shift_effect cv [?src] 0 0 1 = Inl ValueError"
    by (rule tilt_shift_colour_raises [where ht = 360 and w = 640]) simp_all
  have seg: "current_segment 20 (Suc 0) 0 = 0"
    by (rule single_segment) simp_all
  have dur: "segment_duration 20 (Suc 0) \<noteq> 0" by (simp add: segment_duration_def)
  have eff: "apply_tilt_shift_effect cv [?src, ?src] (Suc 0)
               (frame_in_segment 20 (Suc 0) 0) (frames_in_segment 20 (Suc 0) 0) = Inl ValueError"
    by (rule tilt_shift_colour_raises [where ht = 360 and w = 640]) simp_all
  have "synthesize_frame cv [''tilt-shift''] 20 [?src] 0 0 = Inl ValueError"
    using seg dur eff
    by (simp add: synthesize_frame_def alloc_def py_index_def motion_functions_tilt_shift)
  then have "frame_alone cv [''tilt-shift''] 20 ?src 0 = None"
    by (simp add: frame_alone_def)
  with direct show ?thesis by simp
qed

section \<open>The progress callback\<close>

lemma enumerate_strict:
  "sorted_wrt (\<lambda>x y. fst x < fst y) (enumerate_from0 xs)"
proof -
  have "sorted_wrt (<) (map fst (enumerate_from0 xs))"
    by (simp add: enumerate_fst)
  then show ?thesis by (simp add: sorted_wrt_map)
qed

lemma calls_increasing:
  "sorted_wrt (<) (map fst (map (\<lambda>(i, p). (int i + 1, n))
                              (filter P (enumerate_from0 xs))))"
proof -
  have "sorted_wrt (\<lambda>x y. fst x < fst y) (filter P (enumerate_from0 xs))"
    using enumerate_strict by (rule sorted_wrt_filter)
  then have "sorted_wrt (\<lambda>x y. int (fst x) + 1 < int (fst y) + 1) (filter P (enumerate_from0 xs))"
    by (rule sorted_wrt_mono_rel [rotated]) simp
  then show ?thesis
    by (simp add: sorted_wrt_map case_prod_beta)
qed

lemma calls_all:
  assumes "list_all (\<lambda>p. P p) xs"
  shows "map (\<lambda>(i, p). (int i + 1, n)) (filter (\<lambda>(i, p). P p) (enumerate_from0 xs))
       = map (\<lambda>i. (int i + 1, n)) [0..<length xs]"
proof -
  have "list_all (\<lambda>(i, p). P p) (enumerate_from0 xs)"
    using assms by (simp add: list_all_enumerate)
  then have "filter (\<lambda>(i, p). P p) (enumerate_from0 xs) = enumerate_from0 xs"
    by (simp add: list_all_iff)
  moreover have "map (\<lambda>(i, p). (int i + 1, n)) (enumerate_from0 xs)
      = map (\<lambda>i. (int i + 1, n)) (map fst (enumerate_from0 xs))"
    by (simp add: case_prod_beta)
  ultimately show ?thesis by (simp add: enumerate_fst)
qed

text \<open>
  C4. A run that returns with a callback given has called it once per image that was
  read and converted, in order, with \<open>(img_idx + 1, total_images)\<close>: the first
  argument is the position of the image in the list of images, counting the images
  skipped before it. So there are as many calls as videos, the first arguments are
  strictly increasing, they run from 1 to the number of images when every image is
  read, and there is no call when no image is found.
\<close>

theorem progress_callback_calls:
  assumes "create_video_per_image_with_motion cv ev a = Inr (r, s)"
      and "progress_callback a"
  shows "calls s = map (\<lambda>(i, p). (int i + 1, int (length (collect_images ev (input_dir a)))))
                     (filter (\<lambda>(i, p). load_image ev p \<noteq> None)
                             (enumerate_from0 (collect_images ev (input_dir a))))
       \<and> length (calls s) = length (created_videos s)
       \<and> sorted_wrt (<) (map fst (calls s))
       \<and> (list_all (\<lambda>p. load_image ev p \<noteq> None) (collect_images ev (input_dir a))
          \<longrightarrow> calls s = map (\<lambda>i. (int i + 1, int (length (collect_images ev (input_dir a)))))
                            [0..<length (collect_images ev (input_dir a))])
       \<and> (collect_images ev (input_dir a) = [] \<longrightarrow> calls s = [])"
proof -
  let ?images = "collect_images ev (input_dir a)"
  let ?n = "int (length ?images)"
  have c: "calls s = map (\<lambda>(i, p). (int i + 1, ?n))
                     (filter (\<lambda>(i, p). load_image ev p \<noteq> None) (enumerate_from0 ?images))"
    and l: "length (created_videos s) = length (filter (\<lambda>p. load_image ev p \<noteq> None) ?images)"
  proof -
    show "calls s = map (\<lambda>(i, p). (int i + 1, ?n))
                     (filter (\<lambda>(i, p). load_image ev p \<noteq> None) (enumerate_from0 ?images))"
    proof (cases "?images = []")
      case True
      from run_empty [OF True, of cv] assms(1) have "s = init_state" by simp
      then show ?thesis using True by (simp add: init_state_def enumerate_from0_def)
    next
      case False
      obtain tsize where ts: "target_size (quality a) = Inr tsize"
        using target_size_total by blast
      from run_normal(4) [OF assms(1) False ts] assms(2) show ?thesis by simp
    qed
    show "length (created_videos s) = length (filter (\<lambda>p. load_image ev p \<noteq> None) ?images)"
    proof (cases "?images = []")
      case True
      from run_empty [OF True, of cv] assms(1) have "s = init_state" by simp
      then show ?thesis using True by (simp add: init_state_def)
    next
      case False
      obtain tsize where ts: "target_size (quality a) = Inr tsize"
        using target_size_total by blast
      from run_normal(5) [OF assms(1) False ts] show ?thesis .
    qed
  qed
  have len: "length (calls s) = length (created_videos s)"
    using c l by (simp add: filter_enumerate_length)
  have inc: "sorted_wrt (<) (map fst (calls s))"
    unfolding c by (rule calls_increasing)
  have full: "list_all (\<lambda>p. load_image ev p \<noteq> None) ?images
          \<longrightarrow> calls s = map (\<lambda>i. (int i + 1, ?n)) [0..<length ?images]"
    unfolding c using calls_all [of "\<lambda>p. load_image ev p \<noteq> None" ?images ?n] by blast
  have empty: "?images = [] \<longrightarrow> calls s = []"
    unfolding c by (simp add: enumerate_from0_def)
  from c len inc full empty show ?thesis by blast
qed

lemma demo_run_skips_first:
  "\<exists>r s. create_video_per_image_with_motion demo_cv
            (demo_env broken_then_colour never_raises) (demo_args ''Input'') = Inr (r, s)
         \<and> calls s = [(2, 2)] \<and> length (created_videos s) = 1"
proof -
  let ?E = "demo_env broken_then_colour never_raises"
  let ?a = "demo_args ''Input''"
  have dir: "input_dir ?a = ''Input''" by (simp add: demo_args_def)
  have la: "load_image ?E ''Input/a.png'' = None"
    by (simp add: demo_load_none broken_then_colour_def)
  have lb: "load_image ?E ''Input/b.png'' = Some \<lparr>shape = [1, 1, 3], data = [10, 20, 30]\<rparr>"
    by (simp add: demo_load [where img = "\<lparr>shape = [1, 1, 3], data = [10, 20, 30]\<rparr>"]
          broken_then_colour_def)
  have enc: "encoder_ok ?E ?a [''none''] ''360p'' 2 p" for p
    by (simp add: encoder_ok_def demo_env_def never_raises_def list_all_iff)
  have fr: "frames_ok demo_cv ?E [''none''] (640, 360) 2 p" for p
    by (rule demo_frames_ok_none) (simp add: broken_then_colour_def)
  have "\<not> isl (create_video_per_image_with_motion demo_cv ?E ?a)"
    by (rule run_ok [OF demo_target])
       (simp add: dir demo_images demo_plan demo_quality demo_total_frames enc fr)
  then obtain r s where run: "create_video_per_image_with_motion demo_cv ?E ?a = Inr (r, s)"
    by (cases "create_video_per_image_with_motion demo_cv ?E ?a") auto
  have ne: "collect_images ?E (input_dir ?a) \<noteq> []" by (simp add: dir demo_images)
  have cb: "progress_callback ?a" by (simp add: demo_args_def)
  have "calls s = [(2, 2)]"
    using run_normal(4) [OF run ne demo_target] cb
    by (simp add: dir demo_images enumerate_from0_def la lb)
  moreover have "length (created_videos s) = 1"
    using run_normal(5) [OF run ne demo_target]
    by (simp add: dir demo_images la lb)
  ultimately show ?thesis using run by blast
qed

text \<open>
  With \<open>a.png\<close> unreadable and \<open>b.png\<close> readable the callback is called once, with
  \<open>(2, 2)\<close>, when one image has been completed.
\<close>

theorem progress_counts_position_not_completed:
  "map_sum id (\<lambda>(r, s). (calls s, length (created_videos s)))
     (create_video_per_image_with_motion demo_cv
        (demo_env broken_then_colour never_raises) (demo_args ''Input''))
   = Inr ([(2, 2)], 1)"
  using demo_run_skips_first by auto

theorem progress_callback_calls_witness:
  "create_video_per_image_with_motion demo_cv
       (demo_env broken_then_colour never_raises) (demo_args ''Input'')
     = Inr (projr (create_video_per_image_with_motion demo_cv
                     (demo_env broken_then_colour never_raises) (demo_args ''Input'')))
   \<and> progress_callback (demo_args ''Input'')
   \<and> calls (snd (projr (create_video_per_image_with_motion demo_cv
                     (demo_env broken_then_colour never_raises) (demo_args ''Input''))))
       = [(2, 2)]
   \<and> length (created_videos (snd (projr (create_video_per_image_with_motion demo_cv
                     (demo_env broken_then_colour never_raises) (demo_args ''Input''))))) = 1
   \<and> sorted_wrt (<) (map fst (calls (snd (projr (create_video_per_image_with_motion demo_cv
                     (demo_env broken_then_colour never_raises) (demo_args ''Input''))))))"
proof -
  let ?run = "create_video_per_image_with_motion demo_cv
       (demo_env broken_then_colour never_raises) (demo_args ''Input'')"
  from demo_run_skips_first obtain r s where
    run: "?run = Inr (r, s)" and c: "calls s = [(2, 2)]" and l: "length (created_videos s) = 1"
    by blast
  have cb: "progress_callback (demo_args ''Input'')" by (simp add: demo_args_def)
  from progress_callback_calls [OF run cb]
  have "length (calls s) = length (created_videos s) \<and> sorted_wrt (<) (map fst (calls s))"
    by blast
  then show ?thesis using run c l cb by simp
qed

section \<open>The plan none\<close>




lemma tagged_inj: "tagged xs = tagged ys \<Longrightarrow> xs = ys"
proof -
  have "inj (\<lambda>(p :: string, f :: ndarray). (p, Some f))"
    by (auto simp: inj_on_def)
  then show "tagged xs = tagged ys \<Longrightarrow> xs = ys"
    unfolding tagged_def by (simp add: inj_map_eq_map)
qed









section \<open>The source buffer\<close>

text \<open>
  C9. The loop over the frames leaves the buffer of the resized source, and every
  other buffer that existed before, as it was; the frame written for index \<open>i\<close> is the
  frame synthesised from a store that holds the source alone, whatever was synthesised
  before. Every effect of \<open>motion_functions\<close> leaves the cells of its caller unchanged,
  returns a new cell, and returns the same frame from any store that holds the same
  input.
\<close>

theorem frames_independent_of_history:
  assumes "for_each (py_range 0 total_frames)
             (write_frame cv ev plan total_frames path img) s = Inr s'"
      and "img < length (heap s)"
  shows "heap s' ! img = heap s ! img
       \<and> take (length (heap s)) (heap s') = heap s
       \<and> tagged (drop (length (writes s)) (writes s'))
           = map (\<lambda>i. (path, frame_alone cv plan total_frames (heap s ! img) i))
                 (py_range 0 total_frames)
       \<and> (map_of motion_functions mt = Some (Some f)
          \<longrightarrow> extends h (f cv h b i t)
              \<and> (b < length h \<longrightarrow> same_frame (f cv h b i t) (f cv [h ! b] 0 i t)))"
proof -
  from frame_loop [OF assms] obtain fs where
    fs: "writes s' = writes s @ map (Pair path) fs"
        "map Some fs = map (frame_alone cv plan total_frames (heap s ! img)) (py_range 0 total_frames)"
        "take (length (heap s)) (heap s') = heap s"
    by blast
  have same: "heap s' ! img = heap s ! img"
    using fs(3) assms(2) by (metis nth_take)
  have new: "tagged (drop (length (writes s)) (writes s'))
           = map (\<lambda>i. (path, frame_alone cv plan total_frames (heap s ! img) i))
                 (py_range 0 total_frames)"
    using fs(1) tagged_frames [OF fs(2), of path] by simp
  have eff: "map_of motion_functions mt = Some (Some f)
          \<longrightarrow> extends h (f cv h b i t)
              \<and> (b < length h \<longrightarrow> same_frame (f cv h b i t) (f cv [h ! b] 0 i t))"
  proof (intro impI conjI)
    assume m: "map_of motion_functions mt = Some (Some f)"
    show "extends h (f cv h b i t)" by (rule effect_extends [OF m])
    assume b: "b < length h"
    have "h ! b = [h ! b] ! 0" by simp
    from effect_same [OF m this b] show "same_frame (f cv h b i t) (f cv [h ! b] 0 i t)" by simp
  qed
  from same fs(3) new eff show ?thesis by blast
qed

lemma motion_functions_zoom_in:
  "map_of motion_functions ''zoom-in'' = Some (Some apply_zoom_in_effect)"
  by (simp add: motion_functions_def)

lemma frame_alone_zoom_in:
  assumes "0 \<le> k" "k < T" "shape src = [h, w, 3]"
  shows "frame_alone cv [''zoom-in''] T src k \<noteq> None"
proof -
  have T: "segment_duration T (Suc 0) \<noteq> 0" using assms by (simp add: segment_duration_def)
  have idx: "py_index [''zoom-in''] (current_segment T (Suc 0) k) = Inr ''zoom-in''"
    using single_segment [OF assms(1,2)] by (simp add: py_index_def)
  have sh: "shape2 src = Inr (h, w)" using assms(3) by (simp add: shape2_def)
  show ?thesis
    using T idx sh assms(3)
    by (simp add: frame_alone_def synthesize_frame_def alloc_def motion_functions_zoom_in
          apply_zoom_in_effect_def Let_def ensure_bgr_def warpAffine_def nth_append)
qed

theorem frames_independent_of_history_witness:
  "for_each (py_range 0 2)
       (write_frame demo_cv (demo_env broken_then_colour never_raises) [''zoom-in''] 2
          ''out.avi'' 0) demo_state
     = Inr (projr (for_each (py_range 0 2)
              (write_frame demo_cv (demo_env broken_then_colour never_raises) [''zoom-in''] 2
                 ''out.avi'' 0) demo_state))
   \<and> 0 < length (heap demo_state)
   \<and> heap (projr (for_each (py_range 0 2)
              (write_frame demo_cv (demo_env broken_then_colour never_raises) [''zoom-in''] 2
                 ''out.avi'' 0) demo_state)) ! 0
       = \<lparr>shape = [2, 2, 3], data = [5, 5, 5, 5, 5, 5, 5, 5, 5, 5, 5, 5]\<rparr>
   \<and> tagged (writes (projr (for_each (py_range 0 2)
              (write_frame demo_cv (demo_env broken_then_colour never_raises) [''zoom-in''] 2
                 ''out.avi'' 0) demo_state)))
       = [(''out.avi'', frame_alone demo_cv [''zoom-in''] 2
                          \<lparr>shape = [2, 2, 3], data = [5, 5, 5, 5, 5, 5, 5, 5, 5, 5, 5, 5]\<rparr> 0),
          (''out.avi'', frame_alone demo_cv [''zoom-in''] 2
                          \<lparr>shape = [2, 2, 3], data = [5, 5, 5, 5, 5, 5, 5, 5, 5, 5, 5, 5]\<rparr> 1)]
   \<and> map_of motion_functions ''zoom-in'' = Some (Some apply_zoom_in_effect)
   \<and> extends (heap demo_state) (apply_zoom_in_effect demo_cv (heap demo_state) 0 1 2)
   \<and> same_frame (apply_zoom_in_effect demo_cv (heap demo_state) 0 1 2)
        (apply_zoom_in_effect demo_cv [heap demo_state ! 0] 0 1 2)"
proof -
  let ?E = "demo_env broken_then_colour never_raises"
  let ?src = "\<lparr>shape = [2, 2, 3], data = [5, 5, 5, 5, 5, 5, 5, 5, 5, 5, 5, 5]\<rparr>"
  let ?loop = "for_each (py_range 0 2) (write_frame demo_cv ?E [''zoom-in''] 2 ''out.avi'' 0)
                 demo_state"
  have hp: "heap demo_state = [?src]" "writes demo_state = []"
    by (simp_all add: demo_state_def init_state_def)
  have img: "0 < length (heap demo_state)" by (simp add: hp)
  have fa: "frame_alone demo_cv [''zoom-in''] 2 ?src k \<noteq> None" if "k \<in> set (py_range 0 2)" for k
    using that by (intro frame_alone_zoom_in [where h = 2 and w = 2]) (simp_all add: py_range_mem)
  have "list_all (\<lambda>k. frame_alone demo_cv [''zoom-in''] 2 (heap demo_state ! 0) k \<noteq> None
                     \<and> write_raises ?E ''out.avi'' k = None) (py_range 0 2)"
    using fa by (auto simp: hp list_all_iff demo_env_def)
  from frame_loop_ok [OF img this] obtain s' where loop: "?loop = Inr s'" by blast
  note T = frames_independent_of_history [OF loop img, of "''zoom-in''" apply_zoom_in_effect
      "heap demo_state" 0 1 2]
  from T have a: "heap s' ! 0 = ?src" by (simp add: hp)
  from T have b: "tagged (writes s') =
       [(''out.avi'', frame_alone demo_cv [''zoom-in''] 2 ?src 0),
        (''out.avi'', frame_alone demo_cv [''zoom-in''] 2 ?src 1)]"
    by (simp add: hp py_range_2)
  from T motion_functions_zoom_in img
  have c: "extends (heap demo_state) (apply_zoom_in_effect demo_cv (heap demo_state) 0 1 2)
     \<and> same_frame (apply_zoom_in_effect demo_cv (heap demo_state) 0 1 2)
        (apply_zoom_in_effect demo_cv [heap demo_state ! 0] 0 1 2)"
    by blast
  show ?thesis using loop img a b c motion_functions_zoom_in by simp
qed

section \<open>Failures of the encoder\<close>

text \<open>
  The run never reads \<open>writer.isOpened()\<close> and \<open>writer.write\<close> returns nothing to
  read. What the encoder stores follows the status of the stream; nothing else in the
  run does.
\<close>

lemma write_frame_encoded:
  assumes "write_frame cv ev plan T path img s k = Inr s1"
  shows "\<exists>f. writes s1 = writes s @ [(path, f)]
           \<and> encoded s1 = encoded s @
               (if isOpened ev path \<and> frame_encoded ev path k then [(path, f)] else [])"
  using assms by (auto simp: write_frame_def split: sum.splits option.splits)

lemma frame_loop_encoded:
  "for_each ks (write_frame cv ev plan T path img) s = Inr s' \<Longrightarrow> img < length (heap s)
   \<Longrightarrow> tagged (encoded s') =
         tagged (encoded s) @
         map (\<lambda>k. (path, frame_alone cv plan T (heap s ! img) k))
           (filter (\<lambda>k. isOpened ev path \<and> frame_encoded ev path k) ks)"
proof (induction ks arbitrary: s)
  case Nil
  then show ?case by simp
next
  case (Cons k ks)
  from Cons.prems(1) obtain s1 where
    step: "write_frame cv ev plan T path img s k = Inr s1"
    and rest: "for_each ks (write_frame cv ev plan T path img) s1 = Inr s'"
    by (auto split: sum.splits)
  from write_frame_step [OF step Cons.prems(2)] obtain f where
    f: "frame_alone cv plan T (heap s ! img) k = Some f"
       "writes s1 = writes s @ [(path, f)]"
       "take (length (heap s)) (heap s1) = heap s"
    by blast
  from write_frame_encoded [OF step] f(2) have
    e1: "encoded s1 = encoded s @
           (if isOpened ev path \<and> frame_encoded ev path k then [(path, f)] else [])"
    by auto
  have len: "length (heap s) \<le> length (heap s1)"
    using f(3) by (metis length_take min.cobounded2 min_def nat_le_linear)
  then have img1: "img < length (heap s1)" using Cons.prems(2) by simp
  have same: "heap s1 ! img = heap s ! img"
    using f(3) Cons.prems(2) by (metis nth_take)
  from Cons.IH [OF rest img1] show ?case
    using e1 f(1) same by (simp add: tagged_def)
qed

lemma convert_image_encoded:
  assumes "convert_image cv ev a plan q tsize T n s (i, p) = Inr s1"
  shows "tagged (encoded s1) = tagged (encoded s) @ stored_frames cv ev a plan q tsize T p"
    and "map v_size_mb (created_videos s1) =
           map v_size_mb (created_videos s)
           @ (if load_image ev p = None then [] else [reported_size ev a plan q p])"
    and "map v_path (created_videos s1) =
           map v_path (created_videos s)
           @ (if load_image ev p = None then []
              else [output_path_of ev (output_dir a) plan q p])"
proof -
  let ?path = "output_path_of ev (output_dir a) plan q p"
  have "tagged (encoded s1) = tagged (encoded s) @ stored_frames cv ev a plan q tsize T p
      \<and> map v_size_mb (created_videos s1) =
           map v_size_mb (created_videos s)
           @ (if load_image ev p = None then [] else [reported_size ev a plan q p])
      \<and> map v_path (created_videos s1) =
           map v_path (created_videos s)
           @ (if load_image ev p = None then [] else [?path])"
  proof (cases "load_image ev p")
    case None
    then show ?thesis using assms by (simp add: convert_image_skip stored_frames_def)
  next
    case (Some decoded)
    let ?s0 = "s\<lparr>heap := heap s @ [resize cv decoded tsize], opened := opened s @ [?path]\<rparr>"
    from assms Some obtain s2 sz where
      loop: "for_each (py_range 0 T) (write_frame cv ev plan T ?path (length (heap s))) ?s0 = Inr s2"
      and sz: "getsize ev ?path = Inr sz"
      and s1: "encoded s1 = encoded s2"
              "map v_size_mb (created_videos s1) =
                 map v_size_mb (created_videos s2) @ [py_round2 (sz / (1024 * 1024))]"
              "map v_path (created_videos s1) = map v_path (created_videos s2) @ [?path]"
      by (auto simp: convert_image_def alloc_def Let_def split: option.splits sum.splits)
    have lt: "length (heap s) < length (heap ?s0)" by simp
    from frame_loop [OF loop lt] have cv2: "created_videos s2 = created_videos s" by auto
    have src: "heap ?s0 ! length (heap s) = resize cv decoded tsize" by simp
    from frame_loop_encoded [OF loop lt]
    have "tagged (encoded s2) = tagged (encoded s) @ stored_frames cv ev a plan q tsize T p"
      using Some by (simp add: stored_frames_def src)
    then show ?thesis using s1 cv2 sz Some by (simp add: reported_size_def)
  qed
  then show "tagged (encoded s1) = tagged (encoded s) @ stored_frames cv ev a plan q tsize T p"
    and "map v_size_mb (created_videos s1) =
           map v_size_mb (created_videos s)
           @ (if load_image ev p = None then [] else [reported_size ev a plan q p])"
    and "map v_path (created_videos s1) =
           map v_path (created_videos s)
           @ (if load_image ev p = None then []
              else [output_path_of ev (output_dir a) plan q p])"
    by simp_all
qed

lemma image_loop_encoded:
  "for_each items (convert_image cv ev a plan q tsize T n) s = Inr s'
   \<Longrightarrow> tagged (encoded s') =
         tagged (encoded s) @ concat (map (\<lambda>(i, p). stored_frames cv ev a plan q tsize T p) items)
     \<and> map v_size_mb (created_videos s') =
         map v_size_mb (created_videos s)
         @ map (\<lambda>(i, p). reported_size ev a plan q p)
             (filter (\<lambda>(i, p). load_image ev p \<noteq> None) items)
     \<and> map v_path (created_videos s') =
         map v_path (created_videos s)
         @ map (\<lambda>(i, p). output_path_of ev (output_dir a) plan q p)
             (filter (\<lambda>(i, p). load_image ev p \<noteq> None) items)"
proof (induction items arbitrary: s)
  case Nil
  then show ?case by simp
next
  case (Cons ip items)
  obtain i p where ip: "ip = (i, p)" by (cases ip)
  from Cons.prems ip obtain s1 where
    step: "convert_image cv ev a plan q tsize T n s (i, p) = Inr s1"
    and rest: "for_each items (convert_image cv ev a plan q tsize T n) s1 = Inr s'"
    by (auto split: sum.splits)
  note C = convert_image_encoded [OF step]
  from Cons.IH [OF rest] show ?case using C ip by simp
qed

lemma map_filter_snd:
  "map (\<lambda>(i, p). F p) (filter (\<lambda>(i, p). P p) ys) = map F (filter P (map snd ys))"
  by (induction ys) auto

lemma map_filter_enumerate:
  "map (\<lambda>(i, p). F p) (filter (\<lambda>(i, p). P p) (enumerate_from0 xs)) = map F (filter P xs)"
  by (simp add: map_filter_snd enumerate_snd)

lemma run_encoded:
  assumes run: "create_video_per_image_with_motion cv ev a = Inr (r, s)"
      and ne: "collect_images ev (input_dir a) \<noteq> []"
      and ts: "target_size (quality a) = Inr tsize"
  shows "tagged (encoded s) =
           concat (map (stored_frames cv ev a (motion_plan (motion_types a))
                          (effective_quality (quality a)) tsize (total_frames_of a))
                       (collect_images ev (input_dir a)))"
    and "map v_size_mb (created_videos s) =
           map (reported_size ev a (motion_plan (motion_types a)) (effective_quality (quality a)))
             (filter (\<lambda>p. load_image ev p \<noteq> None) (collect_images ev (input_dir a)))"
    and "map v_path (created_videos s) =
           map (output_path_of ev (output_dir a) (motion_plan (motion_types a))
                  (effective_quality (quality a)))
             (filter (\<lambda>p. load_image ev p \<noteq> None) (collect_images ev (input_dir a)))"
proof -
  let ?images = "collect_images ev (input_dir a)"
  let ?plan = "motion_plan (motion_types a)"
  let ?q = "effective_quality (quality a)"
  let ?T = "total_frames_of a"
  from run ne have loop: "for_each (enumerate_from0 ?images)
       (convert_image cv ev a ?plan ?q tsize ?T (length ?images)) init_state = Inr s"
    unfolding run_unfolded [OF ts] by (auto split: sum.splits)
  note L = image_loop_encoded [OF loop]
  show "tagged (encoded s) = concat (map (stored_frames cv ev a ?plan ?q tsize ?T) ?images)"
    using L by (simp add: concat_map_enumerate init_state_def tagged_def)
  show "map v_size_mb (created_videos s) =
           map (reported_size ev a ?plan ?q) (filter (\<lambda>p. load_image ev p \<noteq> None) ?images)"
    using L by (simp add: init_state_def map_filter_enumerate)
  show "map v_path (created_videos s) =
           map (output_path_of ev (output_dir a) ?plan ?q)
             (filter (\<lambda>p. load_image ev p \<noteq> None) ?images)"
    using L by (simp add: init_state_def map_filter_enumerate)
qed

lemma same_but_encoded_iff:
  "same_but_encoded s t \<longleftrightarrow>
     heap s = heap t \<and> opened s = opened t \<and> writes s = writes t \<and> calls s = calls t
     \<and> created_videos s = created_videos t"
  by (cases s; cases t) (auto simp: same_but_encoded_def forget_encoded_def)

lemma for_each_rel:
  assumes "\<And>x s t. R s t \<Longrightarrow> rel_sum (=) R (f s x) (g t x)"
  shows "R s t \<Longrightarrow> rel_sum (=) R (for_each xs f s) (for_each xs g t)"
proof (induction xs arbitrary: s t)
  case Nil
  then show ?case by simp
next
  case (Cons x xs)
  from assms [OF Cons.prems, of x] show ?case
    by (cases "f s x"; cases "g t x") (auto intro: Cons.IH)
qed

lemma write_frame_rel:
  assumes "same_but_encoded s t"
  shows "rel_sum (=) same_but_encoded
           (write_frame cv (ev\<lparr>isOpened := opn, frame_encoded := enc\<rparr>) plan T path img s k)
           (write_frame cv ev plan T path img t k)"
  using assms
  by (auto simp: write_frame_def same_but_encoded_iff split: sum.splits option.splits)

lemma status_fields:
  "collect_images (ev\<lparr>isOpened := opn, frame_encoded := enc\<rparr>) = collect_images ev"
  "load_image (ev\<lparr>isOpened := opn, frame_encoded := enc\<rparr>) = load_image ev"
  "output_path_of (ev\<lparr>isOpened := opn, frame_encoded := enc\<rparr>) = output_path_of ev"
  by (simp_all add: fun_eq_iff collect_images_def load_image_def read_image_with_fallback_def
        output_path_of_def cong: option.case_cong sum.case_cong if_cong)

lemma convert_image_rel:
  assumes "same_but_encoded s t"
  shows "rel_sum (=) same_but_encoded
           (convert_image cv (ev\<lparr>isOpened := opn, frame_encoded := enc\<rparr>) a plan q tsize T n s ip)
           (convert_image cv ev a plan q tsize T n t ip)"
proof -
  obtain i p where ip: "ip = (i, p)" by (cases ip)
  let ?ev = "ev\<lparr>isOpened := opn, frame_encoded := enc\<rparr>"
  let ?path = "output_path_of ev (output_dir a) plan q p"
  show ?thesis
  proof (cases "load_image ev p")
    case None
    then show ?thesis using assms ip by (simp add: convert_image_skip status_fields)
  next
    case (Some decoded)
    let ?s0 = "s\<lparr>heap := heap s @ [resize cv decoded tsize], opened := opened s @ [?path]\<rparr>"
    let ?t0 = "t\<lparr>heap := heap t @ [resize cv decoded tsize], opened := opened t @ [?path]\<rparr>"
    have R0: "same_but_encoded ?s0 ?t0" using assms by (simp add: same_but_encoded_iff)
    have hs: "heap s = heap t" using assms by (simp add: same_but_encoded_iff)
    have L: "rel_sum (=) same_but_encoded
               (for_each (py_range 0 T) (write_frame cv ?ev plan T ?path (length (heap s))) ?s0)
               (for_each (py_range 0 T) (write_frame cv ev plan T ?path (length (heap s))) ?t0)"
      by (rule for_each_rel [OF write_frame_rel R0])
    show ?thesis
    proof (cases "VideoWriter_raises ev ?path")
      case (Some e)
      then show ?thesis using \<open>load_image ev p = Some decoded\<close> ip
        by (simp add: convert_image_def status_fields alloc_def)
    next
      case None
      show ?thesis
        using L None \<open>load_image ev p = Some decoded\<close> ip hs
        by (cases "for_each (py_range 0 T) (write_frame cv ?ev plan T ?path (length (heap s))) ?s0";
            cases "for_each (py_range 0 T) (write_frame cv ev plan T ?path (length (heap s))) ?t0";
            cases "getsize ev ?path")
           (simp_all add: convert_image_def status_fields alloc_def same_but_encoded_iff Let_def)
    qed
  qed
qed

text \<open>
  Whether the streams open and which frames the encoder stores changes neither whether
  the run raises nor what it returns, writes or reports to the callback.
\<close>

lemma encoder_status_unread:
  "map_sum id (\<lambda>(r, s). (r, forget_encoded s))
     (create_video_per_image_with_motion cv (ev\<lparr>isOpened := opn, frame_encoded := enc\<rparr>) a)
   = map_sum id (\<lambda>(r, s). (r, forget_encoded s))
       (create_video_per_image_with_motion cv ev a)"
proof -
  let ?ev = "ev\<lparr>isOpened := opn, frame_encoded := enc\<rparr>"
  obtain tsize where ts: "target_size (quality a) = Inr tsize"
    using target_size_total by blast
  let ?images = "collect_images ev (input_dir a)"
  let ?body = "\<lambda>e. convert_image cv e a (motion_plan (motion_types a))
                       (effective_quality (quality a)) tsize (total_frames_of a) (length ?images)"
  have R: "same_but_encoded init_state init_state" by (simp add: same_but_encoded_def)
  have L: "rel_sum (=) same_but_encoded
             (for_each (enumerate_from0 ?images) (?body ?ev) init_state)
             (for_each (enumerate_from0 ?images) (?body ev) init_state)"
    by (rule for_each_rel [OF convert_image_rel R])
  show ?thesis
  proof (cases "for_each (enumerate_from0 ?images) (?body ?ev) init_state")
    case (Inl e)
    with L show ?thesis
      unfolding run_unfolded [OF ts] status_fields
      by (cases "for_each (enumerate_from0 ?images) (?body ev) init_state") simp_all
  next
    case (Inr s)
    with L obtain t where
      t: "for_each (enumerate_from0 ?images) (?body ev) init_state = Inr t"
      and R: "same_but_encoded s t"
      by (cases "for_each (enumerate_from0 ?images) (?body ev) init_state") simp_all
    from R have "created_videos s = created_videos t" by (simp add: same_but_encoded_iff)
    moreover from R have "forget_encoded s = forget_encoded t" by (simp add: same_but_encoded_def)
    ultimately have "created_videos s = created_videos t" "forget_encoded s = forget_encoded t"
      by simp_all
    then show ?thesis
      unfolding run_unfolded [OF ts] status_fields using Inr t by simp
  qed
qed

lemma with_encoder_fields:
  "collect_images (with_encoder opn enc gs ev) = collect_images ev"
  "load_image (with_encoder opn enc gs ev) = load_image ev"
  "output_path_of (with_encoder opn enc gs ev) = output_path_of ev"
  "VideoWriter_raises (with_encoder opn enc gs ev) = VideoWriter_raises ev"
  "write_raises (with_encoder opn enc gs ev) = write_raises ev"
  "getsize (with_encoder opn enc gs ev) = gs"
  "isOpened (with_encoder opn enc gs ev) = opn"
  "frame_encoded (with_encoder opn enc gs ev) = enc"
  by (simp_all add: with_encoder_def fun_eq_iff collect_images_def load_image_def
        read_image_with_fallback_def output_path_of_def
        cong: option.case_cong sum.case_cong if_cong)

lemma with_encoder_frames_ok:
  "frames_ok cv (with_encoder opn enc gs ev) = frames_ok cv ev"
  by (simp add: fun_eq_iff frames_ok_def with_encoder_fields)

lemma demo_encoder_run:
  "\<exists>r s. create_video_per_image_with_motion demo_cv
            (with_encoder opn enc (\<lambda>p. Inr sz) (demo_env broken_then_colour never_raises))
            (demo_args ''Input'') = Inr (r, s)
     \<and> r = Result (created_videos s)
              \<lparr>videos_created = 1, m_quality = ''360p'', m_motion_effects = [''none'']\<rparr>
     \<and> map v_path (created_videos s) = [''Output/b_motion_none_360p.avi'']
     \<and> map v_size_mb (created_videos s) = [py_round2 (sz / (1024 * 1024))]
     \<and> length (writes s) = 2
     \<and> encoded s =
         map (\<lambda>k. (''Output/b_motion_none_360p.avi'',
                   astype_uint8 (resize demo_cv \<lparr>shape = [1, 1, 3], data = [10, 20, 30]\<rparr>
                                   (640, 360))))
           (filter (\<lambda>k. opn ''Output/b_motion_none_360p.avi''
                        \<and> enc ''Output/b_motion_none_360p.avi'' k) [0, 1])
     \<and> calls s = [(2, 2)]"
proof -
  let ?D = "demo_env broken_then_colour never_raises"
  let ?E = "with_encoder opn enc (\<lambda>p. Inr sz) ?D"
  let ?a = "demo_args ''Input''"
  let ?img = "\<lparr>shape = [1, 1, 3], data = [10, 20, 30]\<rparr>"
  let ?path = "''Output/b_motion_none_360p.avi''"
  have dir: "input_dir ?a = ''Input''" "output_dir ?a = ''Output''"
    by (simp_all add: demo_args_def)
  have imgs: "collect_images ?E ''Input'' = [''Input/a.png'', ''Input/b.png'']"
    by (simp add: with_encoder_fields demo_images)
  have la: "load_image ?E ''Input/a.png'' = None"
    by (simp add: with_encoder_fields demo_load_none broken_then_colour_def)
  have lb: "load_image ?E ''Input/b.png'' = Some ?img"
    by (simp add: with_encoder_fields demo_load [where img = ?img] broken_then_colour_def)
  have pb: "output_path_of ?E ''Output'' [''none''] ''360p'' ''Input/b.png'' = ?path"
    by (simp add: with_encoder_fields output_path_of_def demo_env_def)
  have enc: "encoder_ok ?E ?a [''none''] ''360p'' 2 p" for p
    by (simp add: encoder_ok_def with_encoder_fields demo_env_def never_raises_def list_all_iff)
  have fr: "frames_ok demo_cv ?E [''none''] (640, 360) 2 p" for p
    unfolding with_encoder_frames_ok
    by (rule demo_frames_ok_none) (simp add: broken_then_colour_def)
  have "\<not> isl (create_video_per_image_with_motion demo_cv ?E ?a)"
    by (rule run_ok [OF demo_target])
       (simp add: dir imgs demo_plan demo_quality demo_total_frames enc fr)
  then obtain r s where run: "create_video_per_image_with_motion demo_cv ?E ?a = Inr (r, s)"
    by (cases "create_video_per_image_with_motion demo_cv ?E ?a") auto
  have ne: "collect_images ?E (input_dir ?a) \<noteq> []" by (simp add: dir imgs)
  have cb: "progress_callback ?a" by (simp add: demo_args_def)
  note N = run_normal [OF run ne demo_target]
  note S = run_encoded [OF run ne demo_target]
  have fa: "frame_alone demo_cv [''none''] 2 (resize demo_cv ?img (640, 360)) k
              = Some (astype_uint8 (resize demo_cv ?img (640, 360)))"
    if "k \<in> set [0, 1]" for k
  proof -
    from that have k: "0 \<le> k" "k < 2" by auto
    show ?thesis using frame_alone_none [OF k, of demo_cv "resize demo_cv ?img (640, 360)"]
      by (simp add: resize_def)
  qed
  have len: "length (created_videos s) = 1"
    using N(5) by (simp add: dir imgs la lb)
  have r: "r = Result (created_videos s)
              \<lparr>videos_created = 1, m_quality = ''360p'', m_motion_effects = [''none'']\<rparr>"
    using N(1) len by (simp add: demo_plan demo_quality)
  have paths: "map v_path (created_videos s) = [?path]"
    using S(3) by (simp add: dir imgs la lb demo_plan demo_quality pb)
  have sizes: "map v_size_mb (created_videos s) = [py_round2 (sz / (1024 * 1024))]"
    using S(2)
    by (simp add: dir imgs la lb demo_plan demo_quality pb reported_size_def
          with_encoder_fields(6))
  have "length (tagged (writes s)) = 2"
    unfolding N(3)
    by (simp add: dir imgs demo_plan demo_quality demo_total_frames expected_frames_def la lb
          py_range_2)
  then have wr: "length (writes s) = 2" by (simp add: tagged_def)
  have calls: "calls s = [(2, 2)]"
    using N(4) cb by (simp add: dir imgs enumerate_from0_def la lb)
  have "tagged (encoded s) =
          map (\<lambda>k. (?path, frame_alone demo_cv [''none''] 2 (resize demo_cv ?img (640, 360)) k))
            (filter (\<lambda>k. opn ?path \<and> enc ?path k) [0, 1])"
    unfolding S(1)
    by (simp add: dir imgs demo_plan demo_quality demo_total_frames stored_frames_def la lb pb
          py_range_2 with_encoder_fields(7,8))
  also have "\<dots> = map (\<lambda>k. (?path, Some (astype_uint8 (resize demo_cv ?img (640, 360)))))
            (filter (\<lambda>k. opn ?path \<and> enc ?path k) [0, 1])"
  proof (rule map_cong [OF refl])
    fix k :: int
    assume "k \<in> set (filter (\<lambda>k. opn ?path \<and> enc ?path k) [0, 1])"
    then have "k \<in> set [0, 1] \<and> (opn ?path \<and> enc ?path k)"
      by (simp only: set_filter mem_Collect_eq)
    then have "k \<in> set [0, 1]" by (rule conjunct1)
    from fa [OF this]
    show "(?path, frame_alone demo_cv [''none''] 2 (resize demo_cv ?img (640, 360)) k)
          = (?path, Some (astype_uint8 (resize demo_cv ?img (640, 360))))"
      by (simp only:)
  qed
  also have "\<dots> = tagged (map (\<lambda>k. (?path, astype_uint8 (resize demo_cv ?img (640, 360))))
            (filter (\<lambda>k. opn ?path \<and> enc ?path k) [0, 1]))"
    by (simp add: tagged_def)
  finally have stored: "encoded s = map (\<lambda>k. (?path, astype_uint8 (resize demo_cv ?img (640, 360))))
            (filter (\<lambda>k. opn ?path \<and> enc ?path k) [0, 1])"
    by (rule tagged_inj)
  show ?thesis
    by (rule exI [of _ r], rule exI [of _ s])
       (intro conjI; fact run r paths sizes wr stored calls)
qed

text \<open>
  C2. A stream that cannot be opened, and a frame write that fails in the middle of the
  sequence, are not fatal and do not reach the caller. With \<open>a.png\<close> unreadable and
  \<open>b.png\<close> readable, a run whose stream never opens returns normally: it reports one
  video created, of size 0.0, after passing two frames to \<open>write\<close> of which none is
  stored, and calls the callback with \<open>(2, 2)\<close>. A run whose encoder drops the second
  frame returns normally too and reports one video created, of which only the first
  frame is stored. The failure is passed over as silently as the image that could not
  be decoded, and the video is reported as created.
\<close>

theorem encoder_failure_is_silent:
  "map_sum id
     (\<lambda>(r, s). (r = Result (created_videos s)
                       \<lparr>videos_created = 1, m_quality = ''360p'',
                        m_motion_effects = [''none'']\<rparr>,
                 map v_path (created_videos s), map v_size_mb (created_videos s),
                 length (writes s), encoded s, calls s))
     (create_video_per_image_with_motion demo_cv never_opens (demo_args ''Input''))
   = Inr (True, [''Output/b_motion_none_360p.avi''], [0], 2, [], [(2, 2)])
   \<and> map_sum id
       (\<lambda>(r, s). (r = Result (created_videos s)
                         \<lparr>videos_created = 1, m_quality = ''360p'',
                          m_motion_effects = [''none'']\<rparr>,
                   map v_path (created_videos s), map v_size_mb (created_videos s),
                   length (writes s), encoded s, calls s))
       (create_video_per_image_with_motion demo_cv drops_second_frame (demo_args ''Input''))
     = Inr (True, [''Output/b_motion_none_360p.avi''], [1], 2,
            [(''Output/b_motion_none_360p.avi'',
              astype_uint8 (resize demo_cv \<lparr>shape = [1, 1, 3], data = [10, 20, 30]\<rparr>
                              (640, 360)))],
            [(2, 2)])"
proof -
  have z: "py_round2 (0 / (1024 * 1024)) = 0" by (simp add: py_round2_def)
  have o: "py_round2 (1048576 / (1024 * 1024)) = 1" by (simp add: py_round2_def)
  from demo_encoder_run [of "\<lambda>p. False" "\<lambda>p k. True" 0]
  have a: "map_sum id
     (\<lambda>(r, s). (r = Result (created_videos s)
                       \<lparr>videos_created = 1, m_quality = ''360p'',
                        m_motion_effects = [''none'']\<rparr>,
                 map v_path (created_videos s), map v_size_mb (created_videos s),
                 length (writes s), encoded s, calls s))
     (create_video_per_image_with_motion demo_cv never_opens (demo_args ''Input''))
   = Inr (True, [''Output/b_motion_none_360p.avi''], [0], 2, [], [(2, 2)])"
    unfolding never_opens_def z by auto
  from demo_encoder_run [of "\<lambda>p. True" "\<lambda>p k. k < 1" 1048576]
  have b: "map_sum id
       (\<lambda>(r, s). (r = Result (created_videos s)
                         \<lparr>videos_created = 1, m_quality = ''360p'',
                          m_motion_effects = [''none'']\<rparr>,
                   map v_path (created_videos s), map v_size_mb (created_videos s),
                   length (writes s), encoded s, calls s))
       (create_video_per_image_with_motion demo_cv drops_second_frame (demo_args ''Input''))
     = Inr (True, [''Output/b_motion_none_360p.avi''], [1], 2,
            [(''Output/b_motion_none_360p.avi'',
              astype_uint8 (resize demo_cv \<lparr>shape = [1, 1, 3], data = [10, 20, 30]\<rparr>
                              (640, 360)))],
            [(2, 2)])"
    unfolding drops_second_frame_def o by auto
  from a b show ?thesis by (rule conjI)
qed

end
